theory Spec2Isabelle
  imports Main "HOL-Library.Word"
begin

unbundle bit_operations_syntax

section \<open>The DGT3000 link layer (DGT3000.h, DGT3000.cpp)\<close>

text \<open>
  The driver class \<open>DGT3000\<close> is embedded as a record of its member variables and one HOL
  function per member function, taking the object and returning the updated object.
  \<open>uint8_t\<close> is \<open>8 word\<close> and \<open>uint32_t\<close> is \<open>32 word\<close>, so arithmetic wraps as in C.
  Pointers that the code tests against \<open>nullptr\<close> are options (\<open>None\<close> is the null pointer),
  and the two \<open>TwoWire*\<close> members are booleans saying whether the pointer is set.
  The GPIO pin members and all logging are left out: no function below reads them.
\<close>

type_synonym uint8 = "8 word"
type_synonym uint32 = "32 word"

subsection \<open>Constants\<close>

abbreviation (input) DGT3000_ESP_ADDR_10 :: uint8 where "DGT3000_ESP_ADDR_10 \<equiv> 0x10"
abbreviation (input) DGT3000_ESP_ADDR_00 :: uint8 where "DGT3000_ESP_ADDR_00 \<equiv> 0x00"
abbreviation (input) DGT3000_BUTTON_BUFFER_SIZE :: nat where "DGT3000_BUTTON_BUFFER_SIZE \<equiv> 16"

text \<open>\<open>enum DGTError\<close>; the link stores it in the \<open>int\<close> member \<open>_lastError\<close>.\<close>

abbreviation (input) DGT_SUCCESS :: int where "DGT_SUCCESS \<equiv> 0"
abbreviation (input) DGT_ERROR_I2C_INIT :: int where "DGT_ERROR_I2C_INIT \<equiv> - 1"
abbreviation (input) DGT_ERROR_I2C_COMM :: int where "DGT_ERROR_I2C_COMM \<equiv> - 2"
abbreviation (input) DGT_ERROR_TIMEOUT :: int where "DGT_ERROR_TIMEOUT \<equiv> - 3"
abbreviation (input) DGT_ERROR_NO_ACK :: int where "DGT_ERROR_NO_ACK \<equiv> - 4"
abbreviation (input) DGT_ERROR_BUFFER_OVERRUN :: int where "DGT_ERROR_BUFFER_OVERRUN \<equiv> - 5"
abbreviation (input) DGT_ERROR_CRC :: int where "DGT_ERROR_CRC \<equiv> - 6"
abbreviation (input) DGT_ERROR_CLOCK_OFF :: int where "DGT_ERROR_CLOCK_OFF \<equiv> - 7"
abbreviation (input) DGT_ERROR_NOT_CONFIGURED :: int where "DGT_ERROR_NOT_CONFIGURED \<equiv> - 8"
abbreviation (input) DGT_ERROR_INIT_FAILED :: int where "DGT_ERROR_INIT_FAILED \<equiv> - 10"


abbreviation (input) DGT_BUTTON_BACK :: uint8 where "DGT_BUTTON_BACK \<equiv> 0x01"
abbreviation (input) DGT_BUTTON_MINUS :: uint8 where "DGT_BUTTON_MINUS \<equiv> 0x02"
abbreviation (input) DGT_BUTTON_PLAY_PAUSE :: uint8 where "DGT_BUTTON_PLAY_PAUSE \<equiv> 0x04"
abbreviation (input) DGT_BUTTON_PLUS :: uint8 where "DGT_BUTTON_PLUS \<equiv> 0x08"
abbreviation (input) DGT_BUTTON_FORWARD :: uint8 where "DGT_BUTTON_FORWARD \<equiv> 0x10"
abbreviation (input) DGT_ON_OFF_STATE_MASK :: uint8 where "DGT_ON_OFF_STATE_MASK \<equiv> 0x20"
abbreviation (input) DGT_LEVER_STATE_MASK :: uint8 where "DGT_LEVER_STATE_MASK \<equiv> 0x40"

abbreviation (input) DGT_EVENT_LEVER_RIGHT :: uint8 where "DGT_EVENT_LEVER_RIGHT \<equiv> 0x40"
abbreviation (input) DGT_EVENT_LEVER_LEFT :: uint8 where "DGT_EVENT_LEVER_LEFT \<equiv> 0xC0"
abbreviation (input) DGT_EVENT_ON_OFF_PRESS :: uint8 where "DGT_EVENT_ON_OFF_PRESS \<equiv> 0x20"
abbreviation (input) DGT_EVENT_ON_OFF_RELEASE :: uint8 where "DGT_EVENT_ON_OFF_RELEASE \<equiv> 0xA0"


subsection \<open>The object\<close>

text \<open>
  The anonymous struct \<open>_rxData\<close>. The two ring indices are \<open>int\<close> in the source; every
  assignment to them is a value reduced modulo 16 and they start at 0, so they are
  natural numbers here.
\<close>

record rx_data =
  time :: "uint8 list"
  buttonState :: uint8
  lastButtonState :: uint8
  buttonBuffer :: "uint8 list"
  buttonStart :: nat
  buttonEnd :: nat

record DGT3000 =
  initialized :: bool
  connected :: bool
  configured :: bool
  lastError :: int
  currentListenAddress :: uint8
  recoveryInProgress :: bool
  i2cMaster :: bool
  i2cSlave :: bool
  receivedAckCmd :: uint8
  newAckReceived :: bool
  newPingResponseReceived :: bool
  newTimeAvailable :: bool
  rxData :: rx_data

text \<open>\<open>resetRxData\<close>: \<open>memset(&_rxData, 0, sizeof(_rxData))\<close>.\<close>

definition resetRxData :: rx_data where
  "resetRxData =
     \<lparr>time = replicate 6 0, buttonState = 0, lastButtonState = 0,
      buttonBuffer = replicate DGT3000_BUTTON_BUFFER_SIZE 0, buttonStart = 0, buttonEnd = 0\<rparr>"

text \<open>The constructor \<open>DGT3000::DGT3000()\<close>.\<close>

definition DGT3000_ctor :: DGT3000 where
  "DGT3000_ctor =
     \<lparr>initialized = False, connected = False, configured = False, lastError = DGT_SUCCESS,
      currentListenAddress = 0xFF, recoveryInProgress = False,
      i2cMaster = False, i2cSlave = False,
      receivedAckCmd = 0x00, newAckReceived = False, newPingResponseReceived = False,
      newTimeAvailable = False, rxData = resetRxData\<rparr>"

subsection \<open>CRC-8-ATM\<close>

definition crc_table :: "uint8 list" where
  "crc_table = [
    0x00, 0x07, 0x0E, 0x09, 0x1C, 0x1B, 0x12, 0x15,
    0x38, 0x3F, 0x36, 0x31, 0x24, 0x23, 0x2A, 0x2D,
    0x70, 0x77, 0x7E, 0x79, 0x6C, 0x6B, 0x62, 0x65,
    0x48, 0x4F, 0x46, 0x41, 0x54, 0x53, 0x5A, 0x5D,
    0xE0, 0xE7, 0xEE, 0xE9, 0xFC, 0xFB, 0xF2, 0xF5,
    0xD8, 0xDF, 0xD6, 0xD1, 0xC4, 0xC3, 0xCA, 0xCD,
    0x90, 0x97, 0x9E, 0x99, 0x8C, 0x8B, 0x82, 0x85,
    0xA8, 0xAF, 0xA6, 0xA1, 0xB4, 0xB3, 0xBA, 0xBD,
    0xC7, 0xC0, 0xC9, 0xCE, 0xDB, 0xDC, 0xD5, 0xD2,
    0xFF, 0xF8, 0xF1, 0xF6, 0xE3, 0xE4, 0xED, 0xEA,
    0xB7, 0xB0, 0xB9, 0xBE, 0xAB, 0xAC, 0xA5, 0xA2,
    0x8F, 0x88, 0x81, 0x86, 0x93, 0x94, 0x9D, 0x9A,
    0x27, 0x20, 0x29, 0x2E, 0x3B, 0x3C, 0x35, 0x32,
    0x1F, 0x18, 0x11, 0x16, 0x03, 0x04, 0x0D, 0x0A,
    0x57, 0x50, 0x59, 0x5E, 0x4B, 0x4C, 0x45, 0x42,
    0x6F, 0x68, 0x61, 0x66, 0x73, 0x74, 0x7D, 0x7A,
    0x89, 0x8E, 0x87, 0x80, 0x95, 0x92, 0x9B, 0x9C,
    0xB1, 0xB6, 0xBF, 0xB8, 0xAD, 0xAA, 0xA3, 0xA4,
    0xF9, 0xFE, 0xF7, 0xF0, 0xE5, 0xE2, 0xEB, 0xEC,
    0xC1, 0xC6, 0xCF, 0xC8, 0xDD, 0xDA, 0xD3, 0xD4,
    0x69, 0x6E, 0x67, 0x60, 0x75, 0x72, 0x7B, 0x7C,
    0x51, 0x56, 0x5F, 0x58, 0x4D, 0x4A, 0x43, 0x44,
    0x19, 0x1E, 0x17, 0x10, 0x05, 0x02, 0x0B, 0x0C,
    0x21, 0x26, 0x2F, 0x28, 0x3D, 0x3A, 0x33, 0x34,
    0x4E, 0x49, 0x40, 0x47, 0x52, 0x55, 0x5C, 0x5B,
    0x76, 0x71, 0x78, 0x7F, 0x6A, 0x6D, 0x64, 0x63,
    0x3E, 0x39, 0x30, 0x37, 0x22, 0x25, 0x2C, 0x2B,
    0x06, 0x01, 0x08, 0x0F, 0x1A, 0x1D, 0x14, 0x13,
    0xAE, 0xA9, 0xA0, 0xA7, 0xB2, 0xB5, 0xBC, 0xBB,
    0x96, 0x91, 0x98, 0x9F, 0x8A, 0x8D, 0x84, 0x83,
    0xDE, 0xD9, 0xD0, 0xD7, 0xC2, 0xC5, 0xCC, 0xCB,
    0xE6, 0xE1, 0xE8, 0xEF, 0xFA, 0xFD, 0xF4, 0xF3]"

text \<open>
  One round of either loop body, \<open>crc = crc_table[crc ^ buffer[i]]\<close>. The second
  component collects the buffer indices the function has touched so far, in order.
\<close>

definition crc_step :: "uint8 list \<Rightarrow> nat \<Rightarrow> uint8 \<times> nat list \<Rightarrow> uint8 \<times> nat list" where
  "crc_step buffer i = (\<lambda>(crc, touched). (crc_table ! unat (crc XOR buffer ! i), touched @ [i]))"

text \<open>\<open>for (int i = 0; i < crc_length; i++)\<close>.\<close>

definition crc_loop :: "uint8 list \<Rightarrow> uint8 \<Rightarrow> uint8 \<times> nat list \<Rightarrow> uint8 \<times> nat list" where
  "crc_loop buffer crc_length acc = fold (crc_step buffer) [0..<unat crc_length] acc"

text \<open>
  The position of the CRC byte, shared by both functions:
  \<open>uint8_t crc_length = buffer[1] - 1; if (crc_length >= length) crc_length = length - 1;\<close>
\<close>

definition crc_position :: "uint8 list \<Rightarrow> uint8 \<Rightarrow> uint8" where
  "crc_position buffer len =
     (let crc_length = buffer ! 1 - 1 in if crc_length \<ge> len then len - 1 else crc_length)"

text \<open>
  \<open>calculateCRC\<close> returns the CRC, the buffer after the call, the object, and the list of
  buffer indices read or written.
\<close>

definition calculateCRC ::
  "DGT3000 \<Rightarrow> uint8 list option \<Rightarrow> uint8 \<Rightarrow> uint8 \<times> uint8 list option \<times> DGT3000 \<times> nat list" where
  "calculateCRC s buffer len =
     (case buffer of
        None \<Rightarrow> (0, None, s\<lparr>lastError := DGT_ERROR_CRC\<rparr>, [])
      | Some b \<Rightarrow>
          if len < 3 then (0, Some b, s\<lparr>lastError := DGT_ERROR_CRC\<rparr>, [])
          else
            let crc0 = crc_table ! unat ((0 :: uint8) XOR 0x10);
                crc_length = crc_position b len;
                (crc, touched) = crc_loop b crc_length (crc0, [1])
            in (crc, Some (b[unat crc_length := crc]), s, touched @ [unat crc_length]))"

definition verifyCRC :: "DGT3000 \<Rightarrow> uint8 list option \<Rightarrow> uint8 \<Rightarrow> bool \<times> DGT3000 \<times> nat list" where
  "verifyCRC s buffer len =
     (case buffer of
        None \<Rightarrow> (False, s\<lparr>lastError := DGT_ERROR_CRC\<rparr>, [])
      | Some b \<Rightarrow>
          if len < 3 then (False, s\<lparr>lastError := DGT_ERROR_CRC\<rparr>, [])
          else
            let crc0 = crc_table ! unat ((0 :: uint8) XOR 0x10);
                crc_length = crc_position b len;
                (crc, touched) = crc_loop b crc_length (crc0, [1]);
                receivedCRC = b ! unat crc_length;
                isValid = (crc = receivedCRC)
            in (isValid, (if \<not> isValid then s\<lparr>lastError := DGT_ERROR_CRC\<rparr> else s),
                touched @ [unat crc_length]))"

subsection \<open>The button ring buffer\<close>

definition isButtonBufferFull :: "DGT3000 \<Rightarrow> bool" where
  "isButtonBufferFull s =
     ((buttonEnd (rxData s) + 1) mod DGT3000_BUTTON_BUFFER_SIZE = buttonStart (rxData s))"

definition addButtonEvent :: "uint8 \<Rightarrow> DGT3000 \<Rightarrow> DGT3000" where
  "addButtonEvent button s =
     (let r = rxData s in
      if \<not> isButtonBufferFull s then
        s\<lparr>rxData := r\<lparr>buttonBuffer := (buttonBuffer r)[buttonEnd r := button],
                         buttonEnd := (buttonEnd r + 1) mod DGT3000_BUTTON_BUFFER_SIZE\<rparr>\<rparr>
      else
        s\<lparr>rxData := r\<lparr>buttonStart := (buttonStart r + 1) mod DGT3000_BUTTON_BUFFER_SIZE,
                         buttonBuffer := (buttonBuffer r)[buttonEnd r := button],
                         buttonEnd := (buttonEnd r + 1) mod DGT3000_BUTTON_BUFFER_SIZE\<rparr>\<rparr>)"

text \<open>
  \<open>getButtonEvent(uint8_t* button)\<close>: the argument is the byte the pointer refers to
  (\<open>None\<close> for a null pointer); the result is the returned flag, that byte after the call,
  and the object.
\<close>

definition getButtonEvent :: "uint8 option \<Rightarrow> DGT3000 \<Rightarrow> bool \<times> uint8 option \<times> DGT3000" where
  "getButtonEvent button s =
     (if \<not> initialized s then (False, button, s\<lparr>lastError := DGT_ERROR_NOT_CONFIGURED\<rparr>)
      else case button of
        None \<Rightarrow> (False, None, s\<lparr>lastError := DGT_ERROR_I2C_COMM\<rparr>)
      | Some _ \<Rightarrow>
          let r = rxData s in
          if buttonStart r = buttonEnd r then (False, Some 0, s\<lparr>lastError := DGT_SUCCESS\<rparr>)
          else
            (True, Some (buttonBuffer r ! buttonStart r),
             s\<lparr>rxData := r\<lparr>buttonStart := (buttonStart r + 1) mod DGT3000_BUTTON_BUFFER_SIZE\<rparr>,
               lastError := DGT_SUCCESS\<rparr>))"

text \<open>
  A caller that calls \<open>getButtonEvent\<close> \<open>n\<close> times in a row on the same byte, as the
  task's \<open>while (_dgt3000->getButtonEvent(&button))\<close> does until the first \<open>false\<close>;
  the result lists, call by call, the event returned (\<open>None\<close> when the call returned
  \<open>false\<close>).
\<close>

fun getButtonEvents :: "nat \<Rightarrow> DGT3000 \<Rightarrow> uint8 option list \<times> DGT3000" where
  "getButtonEvents 0 s = ([], s)"
| "getButtonEvents (Suc n) s =
     (case getButtonEvent (Some 0) s of
        (ok, button, s') \<Rightarrow>
          (case getButtonEvents n s' of
             (rest, s'') \<Rightarrow> ((if ok then button else None) # rest, s'')))"

definition getButtonState :: "DGT3000 \<Rightarrow> uint8 \<times> DGT3000" where
  "getButtonState s =
     (if \<not> initialized s then (0, s)
      else (lastButtonState (rxData s), s\<lparr>lastError := DGT_SUCCESS\<rparr>))"

subsection \<open>Inbound frames\<close>

text \<open>
  The frame handlers receive the callback's \<open>rxBuffer\<close> and the number of bytes read,
  narrowed to \<open>uint8_t\<close> by the parameter type.
\<close>

definition processAckMessage :: "uint8 list \<Rightarrow> uint8 \<Rightarrow> DGT3000 \<Rightarrow> DGT3000" where
  "processAckMessage buffer len s =
     (if len < 5 \<or> buffer ! 2 \<noteq> 0x01 then s
      else s\<lparr>receivedAckCmd := buffer ! 3, newAckReceived := True\<rparr>)"

definition processPingResponseMessage :: "uint8 list \<Rightarrow> uint8 \<Rightarrow> DGT3000 \<Rightarrow> DGT3000" where
  "processPingResponseMessage buffer len s =
     (if unat len \<ge> 6 \<and> take 6 buffer = [0x10, 0x07, 0x02, 0x22, 0x01, 0x05]
      then s\<lparr>newPingResponseReceived := True\<rparr> else s)"

text \<open>The lambda \<open>bcdToDec\<close> of \<open>processTimeMessage\<close>.\<close>

definition bcdToDec :: "uint8 \<Rightarrow> uint8" where
  "bcdToDec bcd = (drop_bit 4 bcd * 10) + (bcd AND 0x0F)"

definition processTimeMessage :: "uint8 list \<Rightarrow> uint8 \<Rightarrow> DGT3000 \<Rightarrow> DGT3000" where
  "processTimeMessage buffer len s =
     (if len > 19 \<and> buffer ! 19 = 1 then s
      else if len < 14 \<or> buffer ! 1 \<noteq> 0x18 then s
      else
        let left_h = buffer ! 4 AND 0x0F;
            left_m = bcdToDec (buffer ! 5);
            left_s = bcdToDec (buffer ! 6);
            right_h = buffer ! 10 AND 0x0F;
            right_m = bcdToDec (buffer ! 11);
            right_s = bcdToDec (buffer ! 12)
        in
          if right_h > 9 \<or> right_m > 59 \<or> right_s > 59 \<or> left_h > 9 \<or> left_m > 59 \<or> left_s > 59
          then s
          else
            let r = rxData s;
                s1 = s\<lparr>rxData := r\<lparr>time := (time r)[0 := left_h, 1 := left_m, 2 := left_s,
                                                    3 := right_h, 4 := right_m, 5 := right_s]\<rparr>,
                      newTimeAvailable := True\<rparr>
            in if \<not> connected s1 then s1\<lparr>connected := True, configured := False\<rparr> else s1)"

definition processButtonMessage :: "uint8 list option \<Rightarrow> uint8 \<Rightarrow> DGT3000 \<Rightarrow> DGT3000" where
  "processButtonMessage buffer len s =
     (case buffer of
        None \<Rightarrow> s
      | Some b \<Rightarrow>
          if len < 5 \<or> b ! 2 \<noteq> 5 then s
          else
            let currentButtons = b ! 3;
                previousButtons = b ! 4;
                s1 = s\<lparr>rxData := (rxData s)\<lparr>lastButtonState := currentButtons\<rparr>\<rparr>;
                changedButtons = currentButtons XOR previousButtons
            in
              if changedButtons = 0 then s1
              else if changedButtons AND DGT_ON_OFF_STATE_MASK \<noteq> 0 then
                addButtonEvent
                  (if currentButtons AND DGT_ON_OFF_STATE_MASK \<noteq> 0
                   then DGT_EVENT_ON_OFF_PRESS else DGT_EVENT_ON_OFF_RELEASE) s1
              else if changedButtons AND DGT_LEVER_STATE_MASK \<noteq> 0 then
                addButtonEvent
                  (if currentButtons AND DGT_LEVER_STATE_MASK \<noteq> 0
                   then DGT_EVENT_LEVER_LEFT else DGT_EVENT_LEVER_RIGHT) s1
              else
                let mainButtonPressed = changedButtons AND currentButtons AND 0x1F
                in if mainButtonPressed \<noteq> 0 then addButtonEvent mainButtonPressed s1 else s1)"

text \<open>
  \<open>onSlaveReceive\<close>, after the bytes have been read from the slave peripheral into
  \<open>rxBuffer\<close>: \<open>bytes\<close> are the bytes read (\<open>idx\<close> of them, at most 256) and \<open>bytesReceived\<close>
  the callback's argument.
\<close>

definition onSlaveReceive :: "int \<Rightarrow> uint8 list \<Rightarrow> DGT3000 \<Rightarrow> DGT3000" where
  "onSlaveReceive bytesReceived bytes s =
     (if \<not> initialized s \<or> \<not> i2cSlave s \<or> bytesReceived = 0 then s
      else
        let rxBuffer = take 256 bytes;
            idx = length rxBuffer
        in
          if idx \<ge> 3 \<and> rxBuffer ! 0 = DGT3000_ESP_ADDR_10 then
            let message_type = rxBuffer ! 2 in
            if message_type = 1 then processAckMessage rxBuffer (of_nat idx) s
            else if message_type = 2 then processPingResponseMessage rxBuffer (of_nat idx) s
            else if message_type = 4 then processTimeMessage rxBuffer (of_nat idx) s
            else if message_type = 5 then processButtonMessage (Some rxBuffer) (of_nat idx) s
            else s
          else s)"

subsection \<open>The I2C buses\<close>

text \<open>
  The two I2C peripherals are outside the program. What they answer is read from a
  script, one entry per use, with a counter per kind of use:
  \<^item> \<open>endTransmission_result n\<close> is what the \<open>n\<close>-th \<open>_i2cMaster->endTransmission()\<close> returns
    (0 is success);
  \<^item> \<open>slave_begin_result n\<close> is what the \<open>n\<close>-th \<open>_i2cSlave->begin(address, ...)\<close> returns;
  \<^item> \<open>ack_arrivals n\<close> describes the \<open>n\<close>-th \<open>waitForAck\<close>: one entry per turn of its polling
    loop before the timeout, \<open>Some c\<close> when the receive callback has stored an ACK for
    command \<open>c\<close> since the previous turn;
  \<^item> \<open>ping_arrivals n\<close> describes the polling loop of the \<open>n\<close>-th \<open>sendPing\<close> in the same
    way, \<open>True\<close> when the callback has seen the ping response.
  \<open>wire_log\<close> records each master transmission: the target address and the bytes written.
  The waits see the receive callback only through these arrivals; its handling of other
  frames while a wait is polling is concurrency and is not part of this sequential model.
  \<open>delay\<close> and \<open>millis\<close> appear only as the length of a polling script.
\<close>

record i2c_bus =
  endTransmission_result :: "nat \<Rightarrow> uint8"
  slave_begin_result :: "nat \<Rightarrow> bool"
  ack_arrivals :: "nat \<Rightarrow> uint8 option list"
  ping_arrivals :: "nat \<Rightarrow> bool list"
  tx_count :: nat
  slave_begin_count :: nat
  ack_wait_count :: nat
  ping_wait_count :: nat
  wire_log :: "(uint8 \<times> uint8 list) list"

definition setSlaveListenAddress :: "uint8 \<Rightarrow> DGT3000 \<times> i2c_bus \<Rightarrow> DGT3000 \<times> i2c_bus" where
  "setSlaveListenAddress address = (\<lambda>(s, e).
     if \<not> initialized s \<or> \<not> i2cSlave s then (s\<lparr>lastError := DGT_ERROR_NOT_CONFIGURED\<rparr>, e)
     else if currentListenAddress s = address then (s, e)
     else
       let ok = slave_begin_result e (slave_begin_count e);
           e' = e\<lparr>slave_begin_count := Suc (slave_begin_count e)\<rparr>
       in if \<not> ok then (s\<lparr>lastError := DGT_ERROR_I2C_INIT, currentListenAddress := 0xFF\<rparr>, e')
          else (s\<lparr>currentListenAddress := address\<rparr>, e'))"

text \<open>
  The polling loop of \<open>waitForAck\<close>: each turn first lets the callback store an arrived
  ACK (\<open>processAckMessage\<close>), then tests the two flags; running out of turns is the timeout.
\<close>

fun waitForAck_loop :: "uint8 \<Rightarrow> uint8 option list \<Rightarrow> DGT3000 \<Rightarrow> bool \<times> DGT3000" where
  "waitForAck_loop expectedCmd [] s = (False, s\<lparr>lastError := DGT_ERROR_TIMEOUT\<rparr>)"
| "waitForAck_loop expectedCmd (a # polls) s =
     (let s1 = (case a of None \<Rightarrow> s
                | Some c \<Rightarrow> s\<lparr>receivedAckCmd := c, newAckReceived := True\<rparr>)
      in if newAckReceived s1 \<and> receivedAckCmd s1 = expectedCmd
         then (True, s1\<lparr>newAckReceived := False, lastError := DGT_SUCCESS\<rparr>)
         else waitForAck_loop expectedCmd polls s1)"

definition waitForAck :: "uint8 \<Rightarrow> DGT3000 \<times> i2c_bus \<Rightarrow> bool \<times> DGT3000 \<times> i2c_bus" where
  "waitForAck expectedCmd = (\<lambda>(s, e).
     if \<not> initialized s then (False, s\<lparr>lastError := DGT_ERROR_NOT_CONFIGURED\<rparr>, e)
     else
       let s1 = s\<lparr>newAckReceived := False, receivedAckCmd := 0x00\<rparr>;
           polls = ack_arrivals e (ack_wait_count e);
           e' = e\<lparr>ack_wait_count := Suc (ack_wait_count e)\<rparr>
       in case waitForAck_loop expectedCmd polls s1 of (ok, s2) \<Rightarrow> (ok, s2, e'))"

text \<open>
  One turn of the \<open>for\<close> loop of \<open>sendDGTCommand\<close>. It either leaves the function with a
  return value (\<open>Return\<close>) or goes on to the next attempt (\<open>Continue\<close>), which is what both
  the \<open>continue\<close> statement and falling off the end of the loop body do.
\<close>

datatype send_step = Return bool "DGT3000 \<times> i2c_bus" | Continue "DGT3000 \<times> i2c_bus"

definition send_attempt ::
  "uint8 list \<Rightarrow> int \<Rightarrow> uint8 \<Rightarrow> uint8 \<Rightarrow> int \<Rightarrow> uint8 \<Rightarrow> bool \<Rightarrow> nat \<Rightarrow> nat
   \<Rightarrow> DGT3000 \<times> i2c_bus \<Rightarrow> send_step" where
  "send_attempt cmd len ackListenAddress expectedAckCmd numAcks targetAddress withRetry
     attempt maxAttempts w =
     (case setSlaveListenAddress ackListenAddress w of (s1, e1) \<Rightarrow>
        let s2 = s1\<lparr>newAckReceived := False, receivedAckCmd := 0x00\<rparr>;
            result = endTransmission_result e1 (tx_count e1);
            e2 = e1\<lparr>tx_count := Suc (tx_count e1),
                    wire_log := wire_log e1 @ [(targetAddress, take (nat len) cmd)]\<rparr>
        in
          if result \<noteq> 0 then
            (let s3 = s2\<lparr>lastError := DGT_ERROR_I2C_COMM\<rparr>
             in if withRetry then Continue (s3, e2) else Return True (s3, e2))
          else if numAcks = 0 then Return True (s2\<lparr>lastError := DGT_SUCCESS\<rparr>, e2)
          else
            (case waitForAck expectedAckCmd (s2, e2) of (ok, s3, e3) \<Rightarrow>
               if ok then
                 (case setSlaveListenAddress DGT3000_ESP_ADDR_00 (s3, e3) of (s4, e4) \<Rightarrow>
                    Return True (s4\<lparr>lastError := DGT_SUCCESS\<rparr>, e4))
               else if attempt < maxAttempts then Continue (s3\<lparr>lastError := DGT_ERROR_NO_ACK\<rparr>, e3)
               else Continue (s3, e3)))"

text \<open>
  \<open>for (int attempt = 1; attempt <= maxAttempts; attempt++)\<close> followed by the code after
  the loop.
\<close>

function send_loop ::
  "uint8 list \<Rightarrow> int \<Rightarrow> uint8 \<Rightarrow> uint8 \<Rightarrow> int \<Rightarrow> uint8 \<Rightarrow> bool \<Rightarrow> nat \<Rightarrow> nat
   \<Rightarrow> DGT3000 \<times> i2c_bus \<Rightarrow> bool \<times> DGT3000 \<times> i2c_bus" where
  "send_loop cmd len ackListenAddress expectedAckCmd numAcks targetAddress withRetry
     attempt maxAttempts w =
     (if attempt \<le> maxAttempts then
        (case send_attempt cmd len ackListenAddress expectedAckCmd numAcks targetAddress
                withRetry attempt maxAttempts w of
           Return b w' \<Rightarrow> (b, w')
         | Continue w' \<Rightarrow>
             send_loop cmd len ackListenAddress expectedAckCmd numAcks targetAddress withRetry
               (Suc attempt) maxAttempts w')
      else
        (case setSlaveListenAddress DGT3000_ESP_ADDR_00 w of (s1, e1) \<Rightarrow>
           (False, s1\<lparr>connected := False, configured := False\<rparr>, e1)))"
  by pat_completeness auto
termination
  by (relation "measure (\<lambda>(cmd, len, a, x, n, t, r, attempt, maxAttempts, w).
        Suc maxAttempts - attempt)") auto

declare send_loop.simps [simp del]

text \<open>
  \<open>sendDGTCommand\<close>, without its \<open>name\<close> argument (used for logging only). The default
  arguments of the declaration (\<open>numAcks = 1\<close>, \<open>targetAddress = DGT3000_I2C_ADDRESS\<close>,
  \<open>withRetry = true\<close>) are written out at each call below.
\<close>

definition sendDGTCommand ::
  "uint8 list option \<Rightarrow> int \<Rightarrow> uint8 \<Rightarrow> uint8 \<Rightarrow> int \<Rightarrow> uint8 \<Rightarrow> bool
   \<Rightarrow> DGT3000 \<times> i2c_bus \<Rightarrow> bool \<times> DGT3000 \<times> i2c_bus" where
  "sendDGTCommand cmd len ackListenAddress expectedAckCmd numAcks targetAddress withRetry =
     (\<lambda>(s, e).
        if \<not> initialized s \<or> \<not> i2cMaster s
        then (False, s\<lparr>lastError := DGT_ERROR_NOT_CONFIGURED\<rparr>, e)
        else case cmd of
          None \<Rightarrow> (False, s\<lparr>lastError := DGT_ERROR_I2C_COMM\<rparr>, e)
        | Some c \<Rightarrow>
            if len \<le> 0 then (False, s\<lparr>lastError := DGT_ERROR_I2C_COMM\<rparr>, e)
            else
              let maxAttempts = (if withRetry then 3 else 1)
              in send_loop c len ackListenAddress expectedAckCmd numAcks targetAddress withRetry
                   1 maxAttempts (s, e))"

subsection \<open>Commands of the link\<close>









section \<open>The gateway types and the queue manager (BLEGatewayTypes.cpp, QueueManager.cpp)\<close>

text \<open>
  The enumerations, with the enumerators that \<open>getErrorCodeString\<close>,
  \<open>getConnectionStateString\<close> and \<open>getEventTypeString\<close> list.
\<close>

datatype SystemErrorCode =
    SUCCESS | I2C_COMMUNICATION_ERROR | DGT_NOT_CONFIGURED | I2C_CRC_ERROR | DGT_NOT_CONNECTED
  | JSON_PARSE_ERROR | JSON_INVALID_COMMAND | JSON_INVALID_PARAMETERS
  | COMMAND_TIMEOUT | UNKNOWN_ERROR

datatype ConnectionState = DISCONNECTED | CONNECTED | CONFIGURED | ERROR

datatype EventType = TIME_UPDATE | BUTTON_EVENT | CONNECTION_STATUS | ERROR_EVENT | SYSTEM_STATUS

fun getErrorCodeString :: "SystemErrorCode \<Rightarrow> string" where
  "getErrorCodeString SUCCESS = ''Success''"
| "getErrorCodeString I2C_COMMUNICATION_ERROR = ''I2C Communication Error''"
| "getErrorCodeString DGT_NOT_CONFIGURED = ''DGT3000 Not Configured''"
| "getErrorCodeString I2C_CRC_ERROR = ''I2C CRC Error''"
| "getErrorCodeString DGT_NOT_CONNECTED = ''DGT Not Connected''"
| "getErrorCodeString JSON_PARSE_ERROR = ''JSON Parse Error''"
| "getErrorCodeString JSON_INVALID_COMMAND = ''Invalid JSON Command''"
| "getErrorCodeString JSON_INVALID_PARAMETERS = ''Invalid JSON Parameters''"
| "getErrorCodeString COMMAND_TIMEOUT = ''Command Timeout''"
| "getErrorCodeString UNKNOWN_ERROR = ''Unknown Error''"

text \<open>
  A JSON value of the ArduinoJson library and a \<open>JsonDocument\<close> holding an object, as the
  list of its members in insertion order. \<open>JCode\<close> is the number that
  \<open>static_cast<uint16_t>(errorCode)\<close> stores: the enumerators' numeric values are declared
  in \<open>BLEGatewayTypes.h\<close>, so the number is kept as the enumerator it stands for.
\<close>

datatype json_value =
    JString string | JInt int | JBool bool | JCode SystemErrorCode
  | JObject "(string \<times> json_value) list" | JNull

type_synonym JsonDocument = "(string \<times> json_value) list"

text \<open>
  \<open>const char* x = doc[key]\<close>: the library yields a null pointer unless the member exists
  and is a string.
\<close>

definition as_cstr :: "json_value option \<Rightarrow> string option" where
  "as_cstr v = (case v of Some (JString x) \<Rightarrow> Some x | _ \<Rightarrow> None)"

text \<open>
  The messages that travel through the queues. A \<open>CommandResponse\<close> carries its \<open>id\<close> and
  \<open>timestamp\<close> and, depending on its \<open>success\<close> flag, either the \<open>result\<close> or the
  \<open>errorCode\<close> and \<open>errorMessage\<close>; the two constructors are the two values of the flag.
  Of a \<open>DGTEvent\<close> only the members that the task assigns are kept.
\<close>

record RawBLECommand =
  rc_timestamp :: uint32
  rc_length :: nat
  jsonData :: string

datatype CommandResponse =
    SuccessResponse string uint32 JsonDocument
  | ErrorResponse string uint32 SystemErrorCode string

record DGTEvent =
  ev_type :: EventType
  priority :: uint8
  data :: JsonDocument

abbreviation (input) QUEUE_COMMAND_SIZE :: nat where "QUEUE_COMMAND_SIZE \<equiv> 10"
abbreviation (input) QUEUE_EVENT_SIZE :: nat where "QUEUE_EVENT_SIZE \<equiv> 20"
abbreviation (input) APP_MAX_COMMAND_ID_LENGTH :: nat where "APP_MAX_COMMAND_ID_LENGTH \<equiv> 32"
abbreviation (input) APP_MAX_ERROR_MESSAGE_LENGTH :: nat where "APP_MAX_ERROR_MESSAGE_LENGTH \<equiv> 128"

text \<open>
  The queue manager. A FreeRTOS queue is the list of the items waiting in it, oldest
  first; \<open>qm_initialized\<close> is \<open>isInitialized()\<close> (all three queues and the mutex exist).
  A send finds room or fails: the other core does not run while a call waits for its
  timeout in this sequential model.
\<close>

record QueueStats =
  eventsQueued :: uint32
  eventsProcessed :: uint32
  queueOverflows :: uint32
  queueTimeouts :: uint32
  maxEventQueueDepth :: "16 word"

record QueueManager =
  qm_initialized :: bool
  rawCommandQueue :: "RawBLECommand list"
  eventQueue :: "DGTEvent list"
  responseQueue :: "CommandResponse list"
  qm_stats :: QueueStats

definition receiveRawCommand :: "QueueManager \<Rightarrow> RawBLECommand option \<times> QueueManager" where
  "receiveRawCommand q =
     (if \<not> qm_initialized q then (None, q)
      else case rawCommandQueue q of
        [] \<Rightarrow> (None, q)
      | c # cs \<Rightarrow> (Some c, q\<lparr>rawCommandQueue := cs\<rparr>))"

definition sendResponse :: "CommandResponse \<Rightarrow> QueueManager \<Rightarrow> bool \<times> QueueManager" where
  "sendResponse response q =
     (if \<not> qm_initialized q then (False, q)
      else if length (responseQueue q) < QUEUE_COMMAND_SIZE
      then (True, q\<lparr>responseQueue := responseQueue q @ [response]\<rparr>)
      else (False, q))"

definition updateStatistics :: "QueueManager \<Rightarrow> QueueManager" where
  "updateStatistics q =
     (if \<not> qm_initialized q then q
      else
        let evtDepth = (of_nat (length (eventQueue q)) :: 16 word)
        in if evtDepth > maxEventQueueDepth (qm_stats q)
           then q\<lparr>qm_stats := (qm_stats q)\<lparr>maxEventQueueDepth := evtDepth\<rparr>\<rparr>
           else q)"

definition updateQueueStats :: "bool \<Rightarrow> bool \<Rightarrow> bool \<Rightarrow> QueueManager \<Rightarrow> QueueManager" where
  "updateQueueStats isSend success isCommand q =
     (let st = qm_stats q;
          st' =
            (if isSend then
               (let st1 = (if \<not> isCommand then st\<lparr>eventsQueued := eventsQueued st + 1\<rparr> else st)
                in if \<not> success then st1\<lparr>queueOverflows := queueOverflows st1 + 1\<rparr> else st1)
             else
               (let st1 = (if \<not> isCommand \<and> success
                           then st\<lparr>eventsProcessed := eventsProcessed st + 1\<rparr> else st)
                in if \<not> success then st1\<lparr>queueTimeouts := queueTimeouts st1 + 1\<rparr> else st1))
      in updateStatistics (q\<lparr>qm_stats := st'\<rparr>))"

definition sendPriorityEvent :: "DGTEvent \<Rightarrow> QueueManager \<Rightarrow> bool \<times> QueueManager" where
  "sendPriorityEvent event q =
     (if \<not> qm_initialized q then (False, q)
      else if length (eventQueue q) < QUEUE_EVENT_SIZE
      then (True, updateQueueStats True True False (q\<lparr>eventQueue := event # eventQueue q\<rparr>))
      else (False, updateQueueStats True False False q))"

section \<open>The I2C task manager (I2CTaskManager.h, I2CTaskManager.cpp)\<close>

text \<open>
  The members of \<open>I2CTaskManager\<close> that the functions below use. \<open>_queueManager\<close> is a
  pointer and \<open>_dgt3000\<close> a \<open>unique_ptr\<close>, both tested against null, so both are options
  holding the object pointed to. The members of the struct \<open>_buttonMonitoring\<close> carry the
  prefix \<open>bm_\<close>. \<open>_systemStatus\<close> (its type is declared in \<open>BLEGatewayTypes.h\<close>) is
  written, never read, by these functions and is left out, as is logging.
\<close>

record I2CTaskStats =
  commandsReceived :: uint32
  commandsExecuted :: uint32
  commandsFailed :: uint32
  eventsGenerated :: uint32

record I2CTaskManager =
  queueManager :: "QueueManager option"
  dgt3000 :: "DGT3000 option"
  dgtConnectionState :: ConnectionState
  dgtConfigured :: bool
  bleConnected :: bool
  recoveryAttempts :: uint8
  connectionStartTime :: uint32
  stats :: I2CTaskStats
  bm_lastButtonState :: uint8
  bm_lastButtonTime :: uint32
  bm_buttonRepeatCount :: uint32
  bm_buttonRepeatActive :: bool
  initializingDGT :: bool

definition isDGT3000Connected :: "I2CTaskManager \<Rightarrow> bool" where
  "isDGT3000Connected t = (dgtConnectionState t = CONNECTED)"

definition isDGT3000Configured :: "I2CTaskManager \<Rightarrow> bool" where
  "isDGT3000Configured t = dgtConfigured t"

text \<open>
  \<open>sendCommandResponse\<close>; \<open>now\<close> is the value of \<open>millis()\<close>. \<open>strncpy\<close> into the fixed
  arrays keeps at most 31 and 127 characters.
\<close>

definition sendCommandResponse ::
  "string \<Rightarrow> bool \<Rightarrow> JsonDocument \<Rightarrow> uint32 \<Rightarrow> I2CTaskManager \<Rightarrow> I2CTaskManager" where
  "sendCommandResponse cmd_id success result now t =
     (case queueManager t of
        None \<Rightarrow> t
      | Some q \<Rightarrow>
          let rid = take (APP_MAX_COMMAND_ID_LENGTH - 1) cmd_id;
              response =
                (if success then SuccessResponse rid now result
                 else
                   ErrorResponse rid now
                     (case map_of result ''errorCode'' of Some (JCode c) \<Rightarrow> c | _ \<Rightarrow> SUCCESS)
                     (take (APP_MAX_ERROR_MESSAGE_LENGTH - 1)
                        (case as_cstr (map_of result ''errorMessage'') of Some m \<Rightarrow> m | None \<Rightarrow> [])))
          in case sendResponse response q of (ok, q') \<Rightarrow> t\<lparr>queueManager := Some q'\<rparr>)"

definition sendCommandError ::
  "string \<Rightarrow> SystemErrorCode \<Rightarrow> string option \<Rightarrow> uint32 \<Rightarrow> I2CTaskManager \<Rightarrow> I2CTaskManager" where
  "sendCommandError cmd_id errorCode message now t =
     (let responseResultDoc =
            [(''errorCode'', JCode errorCode),
             (''errorMessage'',
              JString (case message of Some m \<Rightarrow> m | None \<Rightarrow> getErrorCodeString errorCode))]
      in sendCommandResponse cmd_id False responseResultDoc now t)"

definition getButtonName :: "uint8 \<Rightarrow> string" where
  "getButtonName buttonCode =
     (if buttonCode = DGT_BUTTON_BACK then ''back''
      else if buttonCode = DGT_BUTTON_MINUS then ''minus''
      else if buttonCode = DGT_BUTTON_PLAY_PAUSE then ''play_pause''
      else if buttonCode = DGT_BUTTON_PLUS then ''plus''
      else if buttonCode = DGT_BUTTON_FORWARD then ''forward''
      else if buttonCode = DGT_EVENT_ON_OFF_PRESS then ''on_off_press''
      else if buttonCode = DGT_EVENT_ON_OFF_RELEASE then ''on_off_release''
      else if buttonCode = DGT_EVENT_LEVER_RIGHT then ''lever_right''
      else if buttonCode = DGT_EVENT_LEVER_LEFT then ''lever_left''
      else ''unknown'')"

text \<open>\<open>handleButtonRepeat\<close>; \<open>now\<close> is the value of \<open>millis()\<close>.\<close>

definition handleButtonRepeat :: "uint32 \<Rightarrow> I2CTaskManager \<Rightarrow> I2CTaskManager" where
  "handleButtonRepeat now t =
     (case (queueManager t, dgt3000 t) of
        (Some q, Some d) \<Rightarrow>
          (case getButtonState d of
             (currentButtonState, d') \<Rightarrow>
               let t0 = t\<lparr>dgt3000 := Some d'\<rparr>;
                   mainButtonsState = currentButtonState AND 0x1F
               in
                 if mainButtonsState \<noteq> 0 then
                   let t1 =
                         (if \<not> bm_buttonRepeatActive t0
                          then t0\<lparr>bm_buttonRepeatActive := True,
                                  bm_lastButtonState := mainButtonsState,
                                  bm_lastButtonTime := now,
                                  bm_buttonRepeatCount := 0\<rparr>
                          else t0)
                   in
                     if bm_lastButtonState t1 = mainButtonsState then
                       let holdDuration = now - bm_lastButtonTime t1;
                           repeatThreshold = (if bm_buttonRepeatCount t1 = 0 then 800 else 400 :: uint32)
                       in
                         if holdDuration > repeatThreshold then
                           let t2 = t1\<lparr>bm_buttonRepeatCount := bm_buttonRepeatCount t1 + 1,
                                       bm_lastButtonTime := now\<rparr>;
                               event =
                                 \<lparr>ev_type = BUTTON_EVENT, priority = 0,
                                  data =
                                    [(''button'', JString (getButtonName mainButtonsState)),
                                     (''buttonCode'', JInt (uint mainButtonsState)),
                                     (''isRepeat'', JBool True),
                                     (''repeatCount'', JInt (uint (bm_buttonRepeatCount t2)))]\<rparr>
                           in case sendPriorityEvent event q of
                                (ok, q') \<Rightarrow>
                                  let t3 = t2\<lparr>queueManager := Some q'\<rparr>
                                  in if ok
                                     then t3\<lparr>stats := (stats t3)\<lparr>eventsGenerated :=
                                                         eventsGenerated (stats t3) + 1\<rparr>\<rparr>
                                     else t3
                         else t1
                     else t1\<lparr>bm_buttonRepeatActive := False, bm_buttonRepeatCount := 0\<rparr>
                 else t0\<lparr>bm_buttonRepeatActive := False, bm_buttonRepeatCount := 0\<rparr>)
      | _ \<Rightarrow> t)"

text \<open>
  \<open>processCommand\<close>. Two things it calls are parameters:
  \<^item> \<open>deserializeJson\<close>, the ArduinoJson parser: from the payload it gives the
    \<open>DeserializationError\<close> (\<open>None\<close> when parsing succeeded, otherwise its \<open>c_str()\<close>) and
    the document it has filled;
  \<^item> \<open>executeCommand\<close>, the dispatch to the seven command handlers and through them to the
    link: from the id, the command name and \<open>doc["params"]\<close> it gives the returned flag and
    the task manager after the call.
\<close>

definition processCommand ::
  "(string \<Rightarrow> string option \<times> JsonDocument)
   \<Rightarrow> (string \<Rightarrow> string \<Rightarrow> json_value option \<Rightarrow> I2CTaskManager \<Rightarrow> bool \<times> I2CTaskManager)
   \<Rightarrow> uint32 \<Rightarrow> I2CTaskManager \<Rightarrow> I2CTaskManager" where
  "processCommand deserializeJson executeCommand now t =
     (case queueManager t of
        None \<Rightarrow> t
      | Some q \<Rightarrow>
          (case receiveRawCommand q of
             (None, q') \<Rightarrow> t\<lparr>queueManager := Some q'\<rparr>
           | (Some rawCmd, q') \<Rightarrow>
               (let t1 = t\<lparr>queueManager := Some q',
                           stats := (stats t)\<lparr>commandsReceived := commandsReceived (stats t) + 1\<rparr>\<rparr>;
                    parsed = deserializeJson (jsonData rawCmd);
                    error = fst parsed;
                    commandParamsDoc = snd parsed;
                    cmd_id = as_cstr (map_of commandParamsDoc ''id'')
                in
                  (case error of
                     Some err \<Rightarrow>
                       (case cmd_id of
                          Some i \<Rightarrow> sendCommandError i JSON_PARSE_ERROR (Some err) now t1
                        | None \<Rightarrow> t1)
                   | None \<Rightarrow>
                       (case (cmd_id, as_cstr (map_of commandParamsDoc ''command'')) of
                          (Some i, Some commandName) \<Rightarrow>
                            (let needsDGT = (commandName \<noteq> ''getStatus'')
                             in if needsDGT \<and> \<not> isDGT3000Connected t1
                                then sendCommandError i DGT_NOT_CONFIGURED
                                       (Some ''DGT3000 not connected'') now t1
                                else
                                  (case executeCommand i commandName
                                          (map_of commandParamsDoc ''params'') t1 of
                                     (success, t2) \<Rightarrow>
                                       if success
                                       then t2\<lparr>stats := (stats t2)\<lparr>commandsExecuted :=
                                                  commandsExecuted (stats t2) + 1\<rparr>\<rparr>
                                       else t2\<lparr>stats := (stats t2)\<lparr>commandsFailed :=
                                                  commandsFailed (stats t2) + 1\<rparr>\<rparr>))
                        | (Some i, None) \<Rightarrow>
                            sendCommandError i JSON_INVALID_COMMAND
                              (Some ''Missing 'id' or 'command' field'') now t1
                        | (None, _) \<Rightarrow> t1)))))"

text \<open>\<open>mapDGTErrorToSystemError\<close>, a \<open>switch\<close> over the \<open>int\<close> argument.\<close>

definition mapDGTErrorToSystemError :: "int \<Rightarrow> SystemErrorCode" where
  "mapDGTErrorToSystemError dgtError =
     (if dgtError = DGT_ERROR_I2C_COMM \<or> dgtError = DGT_ERROR_I2C_INIT then I2C_COMMUNICATION_ERROR
      else if dgtError = DGT_ERROR_TIMEOUT \<or> dgtError = DGT_ERROR_NO_ACK then COMMAND_TIMEOUT
      else if dgtError = DGT_ERROR_NOT_CONFIGURED then DGT_NOT_CONFIGURED
      else if dgtError = DGT_ERROR_CRC then I2C_CRC_ERROR
      else if dgtError = DGT_ERROR_CLOCK_OFF then DGT_NOT_CONNECTED
      else UNKNOWN_ERROR)"

subsection \<open>The connection state of the clock\<close>

text \<open>
  The functions of the task that assign \<open>_dgtConnectionState\<close> or \<open>_dgtConfigured\<close>: the
  constructor, \<open>initializeDGT3000\<close>, \<open>cleanupDGT3000\<close>, \<open>handleDGT3000Error\<close> and
  \<open>performRecovery\<close>, with what they call. No other line of \<open>I2CTaskManager.cpp\<close> assigns
  either member, and both are private.

  \<open>QueueManager::sendEvent\<close> puts the event at the back of the event queue.
\<close>

definition sendEvent :: "DGTEvent \<Rightarrow> QueueManager \<Rightarrow> bool \<times> QueueManager" where
  "sendEvent event q =
     (if \<not> qm_initialized q then (False, q)
      else
        let success = (length (eventQueue q) < QUEUE_EVENT_SIZE);
            q1 = (if success then q\<lparr>eventQueue := eventQueue q @ [event]\<rparr> else q)
        in (success, updateQueueStats True success False q1))"

text \<open>\<open>DGT3000::getErrorString\<close>, a \<open>switch\<close> over the error code.\<close>

definition getErrorString :: "int \<Rightarrow> string" where
  "getErrorString error =
     (if error = DGT_SUCCESS then ''Success''
      else if error = DGT_ERROR_I2C_INIT then ''I2C initialization failed''
      else if error = DGT_ERROR_I2C_COMM then ''I2C communication error''
      else if error = DGT_ERROR_TIMEOUT then ''Timeout''
      else if error = DGT_ERROR_NO_ACK then ''No acknowledgment''
      else if error = DGT_ERROR_BUFFER_OVERRUN then ''Buffer overrun''
      else if error = DGT_ERROR_CRC then ''CRC error''
      else if error = DGT_ERROR_CLOCK_OFF then ''Clock is off''
      else if error = DGT_ERROR_NOT_CONFIGURED then ''Not configured''
      else if error = DGT_ERROR_INIT_FAILED then ''Initialization failed after recovery''
      else ''Unknown error'')"

text \<open>
  The two event generators that do not assign the priority of the event they build. The
  constructor \<open>DGTEvent(type)\<close> is declared in \<open>BLEGatewayTypes.h\<close>; the priority it gives
  a new event is the parameter \<open>ctorPriority\<close>. The error code in the data of an error
  event is the \<open>uint16_t\<close> value of the enumerator, written \<open>JCode\<close> as in
  \<open>sendCommandError\<close>.
\<close>

definition generateConnectionStatusEvent ::
  "uint8 \<Rightarrow> bool \<Rightarrow> bool \<Rightarrow> I2CTaskManager \<Rightarrow> I2CTaskManager" where
  "generateConnectionStatusEvent ctorPriority isConnected isConfigured t =
     (case queueManager t of
        None \<Rightarrow> t
      | Some q \<Rightarrow>
          let event =
                \<lparr>ev_type = CONNECTION_STATUS, priority = ctorPriority,
                 data = [(''connected'', JBool isConnected), (''configured'', JBool isConfigured)]\<rparr>
          in case sendEvent event q of (ok, q') \<Rightarrow> t\<lparr>queueManager := Some q'\<rparr>)"

definition generateErrorEvent ::
  "uint8 \<Rightarrow> SystemErrorCode \<Rightarrow> string option \<Rightarrow> I2CTaskManager \<Rightarrow> I2CTaskManager" where
  "generateErrorEvent ctorPriority errorCode message t =
     (case queueManager t of
        None \<Rightarrow> t
      | Some q \<Rightarrow>
          let event =
                \<lparr>ev_type = ERROR_EVENT, priority = ctorPriority,
                 data = [(''errorCode'', JCode errorCode),
                         (''errorMessage'',
                          JString (case message of Some m \<Rightarrow> m
                                   | None \<Rightarrow> getErrorCodeString errorCode))]\<rparr>
          in case sendPriorityEvent event q of (ok, q') \<Rightarrow> t\<lparr>queueManager := Some q'\<rparr>)"

text \<open>
  The constructor. \<open>_dgt3000\<close> is an empty \<open>unique_ptr\<close> until \<open>initialize()\<close> fills it.
  \<open>I2CTaskStats\<close> is declared in \<open>BLEGatewayTypes.h\<close>; the value of \<open>I2CTaskStats()\<close> is
  the parameter \<open>initialStats\<close>.
\<close>

definition I2CTaskManager_ctor :: "QueueManager option \<Rightarrow> I2CTaskStats \<Rightarrow> I2CTaskManager" where
  "I2CTaskManager_ctor queueMgr initialStats =
     \<lparr>queueManager = queueMgr, dgt3000 = None,
      dgtConnectionState = DISCONNECTED, dgtConfigured = False, bleConnected = False,
      recoveryAttempts = 0, connectionStartTime = 0,
      stats = initialStats,
      bm_lastButtonState = 0, bm_lastButtonTime = 0, bm_buttonRepeatCount = 0,
      bm_buttonRepeatActive = False,
      initializingDGT = False\<rparr>"

text \<open>
  The three calls into the link object, \<open>_dgt3000->begin(...)\<close>, \<open>_dgt3000->configure()\<close>
  and \<open>_dgt3000->end()\<close>, are the parameters \<open>link_begin\<close>, \<open>link_configure\<close> and
  \<open>link_end\<close>: functions on the link object, the buses they talk to being part of them.
  For \<open>link_configure\<close> that is \<open>configure\<close> above run on a bus. \<open>now\<close> is the value
  of \<open>millis()\<close>. \<open>updateConnectionState\<close> writes \<open>_systemStatus\<close> only.
\<close>

definition configureDGT3000 ::
  "(DGT3000 \<Rightarrow> bool \<times> DGT3000) \<Rightarrow> I2CTaskManager \<Rightarrow> bool \<times> I2CTaskManager" where
  "configureDGT3000 link_configure t =
     (case dgt3000 t of
        None \<Rightarrow> (False, t)
      | Some d \<Rightarrow>
          (case link_configure d of
             (ok, d') \<Rightarrow> if \<not> ok then (False, t\<lparr>dgt3000 := Some d'\<rparr>)
                         else (True, t\<lparr>dgt3000 := Some d'\<rparr>)))"

definition initializeDGT3000 ::
  "uint8 \<Rightarrow> (DGT3000 \<Rightarrow> bool \<times> DGT3000) \<Rightarrow> (DGT3000 \<Rightarrow> bool \<times> DGT3000) \<Rightarrow> uint32
   \<Rightarrow> I2CTaskManager \<Rightarrow> bool \<times> I2CTaskManager" where
  "initializeDGT3000 ctorPriority link_begin link_configure now t =
     (let t1 = t\<lparr>initializingDGT := True\<rparr>
      in case dgt3000 t1 of
           None \<Rightarrow> (False, t1\<lparr>initializingDGT := False\<rparr>)
         | Some d \<Rightarrow>
             (let t2 = t1\<lparr>connectionStartTime := now\<rparr>
              in case link_begin d of
                   (ok, d') \<Rightarrow>
                     (let t3 = t2\<lparr>dgt3000 := Some d'\<rparr>
                      in if \<not> ok then (False, t3\<lparr>initializingDGT := False\<rparr>)
                         else
                           (case configureDGT3000 link_configure t3 of
                              (success, t4) \<Rightarrow>
                                if \<not> success then (False, t4\<lparr>initializingDGT := False\<rparr>)
                                else
                                  (let t5 = t4\<lparr>dgtConnectionState := CONNECTED,
                                              dgtConfigured := True\<rparr>;
                                       t6 = generateConnectionStatusEvent ctorPriority True True t5
                                   in (True, t6\<lparr>initializingDGT := False\<rparr>))))))"

definition cleanupDGT3000 ::
  "uint8 \<Rightarrow> (DGT3000 \<Rightarrow> DGT3000) \<Rightarrow> I2CTaskManager \<Rightarrow> I2CTaskManager" where
  "cleanupDGT3000 ctorPriority link_end t =
     (case dgt3000 t of
        None \<Rightarrow> t
      | Some d \<Rightarrow>
          if \<not> isDGT3000Connected t then t
          else
            (let t1 = t\<lparr>dgt3000 := Some (link_end d)\<rparr>;
                 t2 = t1\<lparr>dgtConnectionState := DISCONNECTED, dgtConfigured := False\<rparr>
             in generateConnectionStatusEvent ctorPriority False False t2))"

definition handleDGT3000Error :: "uint8 \<Rightarrow> int \<Rightarrow> I2CTaskManager \<Rightarrow> I2CTaskManager" where
  "handleDGT3000Error ctorPriority error t =
     (let systemError = mapDGTErrorToSystemError error;
          t1 = generateErrorEvent ctorPriority systemError (Some (getErrorString error)) t
      in if error = DGT_ERROR_I2C_COMM \<or> error = DGT_ERROR_TIMEOUT \<or> error = DGT_ERROR_NO_ACK
            \<or> error = DGT_ERROR_CLOCK_OFF \<or> error = DGT_ERROR_CRC
            \<or> error = DGT_ERROR_NOT_CONFIGURED
         then
           (if dgtConnectionState t1 = CONNECTED
            then
              (let t2 = t1\<lparr>dgtConnectionState := DISCONNECTED, dgtConfigured := False\<rparr>
               in generateConnectionStatusEvent ctorPriority False False t2)
            else t1)
         else t1)"

definition performRecovery ::
  "uint8 \<Rightarrow> (DGT3000 \<Rightarrow> bool \<times> DGT3000) \<Rightarrow> I2CTaskManager \<Rightarrow> bool \<times> I2CTaskManager" where
  "performRecovery ctorPriority link_configure t =
     (case configureDGT3000 link_configure t of
        (success, t1) \<Rightarrow>
          if success then
            (let t2 = t1\<lparr>dgtConnectionState := CONNECTED, dgtConfigured := True,
                        recoveryAttempts := 0\<rparr>
             in (True, generateConnectionStatusEvent ctorPriority True True t2))
          else (False, t1))"

section \<open>Notions used in the statements and proofs\<close>

text \<open>
  The CRC loop without the index bookkeeping: the table-driven update folded over a
  list of buffer indices.
\<close>

definition crc_run :: "uint8 list \<Rightarrow> nat list \<Rightarrow> uint8 \<Rightarrow> uint8" where
  "crc_run b js c = fold (\<lambda>i c. crc_table ! unat (c XOR b ! i)) js c"

text \<open>
  The inverse of one table look-up, written bit by bit; it serves to show that the 256
  table entries are pairwise different.
\<close>

definition crc_inv :: "uint8 \<Rightarrow> uint8" where
  "crc_inv v =
     (if bit v 0 then 0xD9 else 0) XOR (if bit v 1 then 0xB5 else 0) XOR
     (if bit v 2 then 0x6D else 0) XOR (if bit v 3 then 0xDA else 0) XOR
     (if bit v 4 then 0xB3 else 0) XOR (if bit v 5 then 0x61 else 0) XOR
     (if bit v 6 then 0xC2 else 0) XOR (if bit v 7 then 0x83 else 0)"

text \<open>
  The value of a BCD byte as the specification reads it: the high nibble counts tens, the
  low nibble units.
\<close>

definition bcd_decode :: "uint8 \<Rightarrow> nat" where
  "bcd_decode b = 10 * (unat b div 16) + unat b mod 16"

text \<open>
  The specification's classification of a button frame, written from its wording: from
  the pair \<open>(current, previous)\<close> and \<open>changed = current ^ previous\<close>, the on/off bit
  (0x20, bit 5) comes first, then the lever bit (0x40, bit 6), then the main five
  buttons, which give an event only when \<open>changed & current & 0x1F\<close> is not zero.
\<close>

definition button_event_spec :: "uint8 \<Rightarrow> uint8 \<Rightarrow> uint8 option" where
  "button_event_spec current previous =
     (let changed = current XOR previous in
      if bit changed 5 then Some (if bit current 5 then 0x20 else 0xA0)
      else if bit changed 6 then Some (if bit current 6 then 0xC0 else 0x40)
      else
        (let main_pressed = changed AND current AND 0x1F
         in if main_pressed \<noteq> 0 then Some main_pressed else None))"

text \<open>
  The events that can be read from the ring, oldest first: the slots from \<open>buttonStart\<close>
  up to, not including, \<open>buttonEnd\<close>, going round modulo 16. \<open>ring_ok\<close> says that the
  buffer has its 16 slots and both indices point into it.
\<close>

definition readable_events :: "DGT3000 \<Rightarrow> uint8 list" where
  "readable_events s =
     (let r = rxData s
      in map (\<lambda>j. buttonBuffer r ! ((buttonStart r + j) mod 16))
           [0..<(buttonEnd r + 16 - buttonStart r) mod 16])"

definition ring_ok :: "DGT3000 \<Rightarrow> bool" where
  "ring_ok s =
     (length (buttonBuffer (rxData s)) = 16 \<and> buttonStart (rxData s) < 16
      \<and> buttonEnd (rxData s) < 16)"

text \<open>The last 15 elements of a list (the whole list when it has at most 15).\<close>

definition last15 :: "uint8 list \<Rightarrow> uint8 list" where
  "last15 xs = drop (length xs - 15) xs"

text \<open>
  What no operation of the link changes, and what it can only lower: \<open>link_le s s'\<close> says
  that \<open>s'\<close> has the same initialization, bus pointers and re-entry flag as \<open>s\<close> and is
  connected or configured only if \<open>s\<close> was.
\<close>

definition link_le :: "DGT3000 \<Rightarrow> DGT3000 \<Rightarrow> bool" where
  "link_le s s' =
     (initialized s' = initialized s \<and> i2cMaster s' = i2cMaster s \<and> i2cSlave s' = i2cSlave s
      \<and> recoveryInProgress s' = recoveryInProgress s
      \<and> (connected s' \<longrightarrow> connected s) \<and> (configured s' \<longrightarrow> configured s))"

text \<open>
  The listen address after \<open>setSlaveListenAddress(0x00)\<close> on an initialized link: 0x00, or
  0xFF with the error \<open>I2C_INIT\<close> when the slave peripheral refused the bind; 0x00
  whenever the peripheral accepts every bind.
\<close>

definition reverted :: "i2c_bus \<Rightarrow> DGT3000 \<Rightarrow> bool" where
  "reverted e s' =
     ((currentListenAddress s' = 0
       \<or> currentListenAddress s' = 0xFF \<and> lastError s' = DGT_ERROR_I2C_INIT)
      \<and> ((\<forall>k. slave_begin_result e k) \<longrightarrow> currentListenAddress s' = 0))"

text \<open>
  Concrete objects for the examples: a link as \<open>begin()\<close> leaves it, a bus on which every
  master transmission fails and nothing arrives, and a bus on which every transmission
  succeeds and the two ACKs of the configuration sequence arrive.
\<close>

definition ready_link :: DGT3000 where
  "ready_link = DGT3000_ctor\<lparr>initialized := True, i2cMaster := True, i2cSlave := True,
                              currentListenAddress := 0x00\<rparr>"

definition dead_bus :: i2c_bus where
  "dead_bus =
     \<lparr>endTransmission_result = (\<lambda>n. 2), slave_begin_result = (\<lambda>n. True),
      ack_arrivals = (\<lambda>n. []), ping_arrivals = (\<lambda>n. [False, False]),
      tx_count = 0, slave_begin_count = 0, ack_wait_count = 0, ping_wait_count = 0,
      wire_log = []\<rparr>"


text \<open>
  The next \<open>k\<close> attempts of a send with retry all fail, read off the scripts of the bus from
  transmission number \<open>tx\<close> and ACK wait number \<open>w\<close> on: an attempt fails when its master
  transmission is refused, or when it is accepted, an ACK is awaited (\<open>numAcks\<close> is not
  zero) and the expected ACK is not among the arrivals of that wait. A refused transmission
  uses up no wait.
\<close>

fun exhausted :: "uint8 \<Rightarrow> int \<Rightarrow> i2c_bus \<Rightarrow> nat \<Rightarrow> nat \<Rightarrow> nat \<Rightarrow> bool" where
  "exhausted x n e 0 tx w = True"
| "exhausted x n e (Suc k) tx w =
     (if endTransmission_result e tx \<noteq> 0 then exhausted x n e k (Suc tx) w
      else n \<noteq> 0 \<and> Some x \<notin> set (ack_arrivals e w) \<and> exhausted x n e k (Suc tx) (Suc w))"

text \<open>
  A bus on which every transmission is accepted and the only ACK that ever arrives is one
  for Change State, and a bus that refuses the first transmission, then accepts and lets the
  ACK for Set Central Control arrive in the second wait.
\<close>

definition mute_bus :: i2c_bus where
  "mute_bus =
     \<lparr>endTransmission_result = (\<lambda>n. 0), slave_begin_result = (\<lambda>n. True),
      ack_arrivals = (\<lambda>n. [None, Some 0x0b, None]), ping_arrivals = (\<lambda>n. []),
      tx_count = 0, slave_begin_count = 0, ack_wait_count = 0, ping_wait_count = 0,
      wire_log = []\<rparr>"

definition slow_bus :: i2c_bus where
  "slow_bus =
     \<lparr>endTransmission_result = (\<lambda>n. if n = 0 then 2 else 0), slave_begin_result = (\<lambda>n. True),
      ack_arrivals = (\<lambda>n. if n = 0 then [None, None] else [None, Some 0x0f]),
      ping_arrivals = (\<lambda>n. []),
      tx_count = 0, slave_begin_count = 0, ack_wait_count = 0, ping_wait_count = 0,
      wire_log = []\<rparr>"

text \<open>
  For \<open>processCommand\<close>: the task as it stands once the front command has been taken from
  the queue and counted, and the same task with an error response offered to the response
  queue, which takes it when it holds fewer than \<open>QUEUE_COMMAND_SIZE\<close> responses.
\<close>

definition command_taken :: "QueueManager \<Rightarrow> RawBLECommand list \<Rightarrow> I2CTaskManager \<Rightarrow> I2CTaskManager" where
  "command_taken q rest t =
     t\<lparr>queueManager := Some (q\<lparr>rawCommandQueue := rest\<rparr>),
       stats := (stats t)\<lparr>commandsReceived := commandsReceived (stats t) + 1\<rparr>\<rparr>"

definition error_offered ::
  "QueueManager \<Rightarrow> RawBLECommand list \<Rightarrow> CommandResponse \<Rightarrow> I2CTaskManager \<Rightarrow> I2CTaskManager" where
  "error_offered q rest r t =
     (command_taken q rest t)\<lparr>queueManager :=
        Some (q\<lparr>rawCommandQueue := rest,
                responseQueue := (if length (responseQueue q) < QUEUE_COMMAND_SIZE
                                  then responseQueue q @ [r] else responseQueue q)\<rparr>)\<rparr>"

definition responses :: "I2CTaskManager \<Rightarrow> CommandResponse list" where
  "responses t = (case queueManager t of None \<Rightarrow> [] | Some q \<Rightarrow> responseQueue q)"

text \<open>
  For \<open>handleButtonRepeat\<close>: the repeat event the function builds, the events waiting in
  the task's event queue, and the four members of \<open>_buttonMonitoring\<close> together.
\<close>

definition repeat_event :: "uint8 \<Rightarrow> uint32 \<Rightarrow> DGTEvent" where
  "repeat_event m n =
     \<lparr>ev_type = BUTTON_EVENT, priority = 0,
      data = [(''button'', JString (getButtonName m)),
              (''buttonCode'', JInt (uint m)),
              (''isRepeat'', JBool True),
              (''repeatCount'', JInt (uint n))]\<rparr>"

definition queued_events :: "I2CTaskManager \<Rightarrow> DGTEvent list" where
  "queued_events t = (case queueManager t of None \<Rightarrow> [] | Some q \<Rightarrow> eventQueue q)"

definition monitor :: "I2CTaskManager \<Rightarrow> bool \<times> uint8 \<times> uint32 \<times> uint32" where
  "monitor t = (bm_buttonRepeatActive t, bm_lastButtonState t, bm_lastButtonTime t,
                bm_buttonRepeatCount t)"

text \<open>
  Example states: an initialised queue manager holding the given commands and nothing else, a
  link whose last button frame reported the given raw state, and a task on top of both whose
  connection state and repeat monitor are given.
\<close>

definition queue_holding :: "RawBLECommand list \<Rightarrow> QueueManager" where
  "queue_holding cmds =
     \<lparr>qm_initialized = True, rawCommandQueue = cmds, eventQueue = [], responseQueue = [],
      qm_stats = \<lparr>eventsQueued = 0, eventsProcessed = 0, queueOverflows = 0,
                  queueTimeouts = 0, maxEventQueueDepth = 0\<rparr>\<rparr>"

definition link_reporting :: "uint8 \<Rightarrow> DGT3000" where
  "link_reporting b =
     DGT3000_ctor\<lparr>initialized := True, rxData := resetRxData\<lparr>lastButtonState := b\<rparr>\<rparr>"

definition task_with ::
  "RawBLECommand list \<Rightarrow> uint8 \<Rightarrow> ConnectionState \<Rightarrow> bool \<times> uint8 \<times> uint32 \<times> uint32
   \<Rightarrow> I2CTaskManager" where
  "task_with cmds b c mon =
     \<lparr>queueManager = Some (queue_holding cmds), dgt3000 = Some (link_reporting b),
      dgtConnectionState = c, dgtConfigured = (c = CONNECTED), bleConnected = True,
      recoveryAttempts = 0, connectionStartTime = 0,
      stats = \<lparr>commandsReceived = 0, commandsExecuted = 0, commandsFailed = 0,
               eventsGenerated = 0\<rparr>,
      bm_lastButtonState = fst (snd mon), bm_lastButtonTime = fst (snd (snd mon)),
      bm_buttonRepeatCount = snd (snd (snd mon)), bm_buttonRepeatActive = fst mon,
      initializingDGT = False\<rparr>"

text \<open>
  The states of the task, as far as the two members \<open>_dgtConnectionState\<close> and
  \<open>_dgtConfigured\<close> go: the state the constructor builds, and what the four functions
  that assign either member make of a state, whatever the link and the clock do in them.
  Every other step of the task (\<open>other_step\<close>) leaves the two members as they are.
  In each of these states the clock is configured exactly when it is connected
  (\<open>flags_coupled\<close>).
\<close>

definition flags_coupled :: "I2CTaskManager \<Rightarrow> bool" where
  "flags_coupled t = (dgtConfigured t = (dgtConnectionState t = CONNECTED))"

inductive task_reachable :: "I2CTaskManager \<Rightarrow> bool" where
  constructed: "task_reachable (I2CTaskManager_ctor queueMgr initialStats)"
| initialize_step:
    "task_reachable t \<Longrightarrow>
     task_reachable (snd (initializeDGT3000 ctorPriority link_begin link_configure now t))"
| cleanup_step:
    "task_reachable t \<Longrightarrow> task_reachable (cleanupDGT3000 ctorPriority link_end t)"
| error_step:
    "task_reachable t \<Longrightarrow> task_reachable (handleDGT3000Error ctorPriority error t)"
| recovery_step:
    "task_reachable t \<Longrightarrow> task_reachable (snd (performRecovery ctorPriority link_configure t))"
| other_step:
    "task_reachable t \<Longrightarrow> dgtConnectionState t' = dgtConnectionState t \<Longrightarrow>
     dgtConfigured t' = dgtConfigured t \<Longrightarrow> task_reachable t'"

section \<open>The CRC\<close>

subsection \<open>The table is injective\<close>

lemma crc_inv_table: "map crc_inv crc_table = map of_nat [0..<256]"
  by (simp add: crc_inv_def crc_table_def upt_rec)

lemma crc_table_length: "length crc_table = 256"
  by (simp add: crc_table_def)

lemma crc_inv_lookup: "crc_inv (crc_table ! unat (x :: uint8)) = x"
proof -
  have lt: "unat x < 256" using unsigned_less [of x, where ?'a = nat] by simp
  have "crc_inv (crc_table ! unat x) = map crc_inv crc_table ! unat x"
    using lt by (simp add: crc_table_length)
  also have "\<dots> = map of_nat [0..<256] ! unat x"
    by (simp only: crc_inv_table)
  also have "\<dots> = x" using lt by simp
  finally show ?thesis .
qed

lemma crc_lookup_inj:
  "crc_table ! unat (x :: uint8) = crc_table ! unat (y :: uint8) \<Longrightarrow> x = y"
  by (metis crc_inv_lookup)

subsection \<open>The loop\<close>

lemma fold_crc_step:
  "fold (crc_step b) js (c, tr) = (crc_run b js c, tr @ js)"
  by (induction js arbitrary: c tr) (simp_all add: crc_run_def crc_step_def)

lemma crc_loop_eq:
  "crc_loop b n (c, tr) = (crc_run b [0..<unat n] c, tr @ [0..<unat n])"
  by (simp add: crc_loop_def fold_crc_step)

lemma crc_run_append: "crc_run b (js @ ks) c = crc_run b ks (crc_run b js c)"
  by (simp add: crc_run_def)

lemma crc_run_cong:
  "(\<And>i. i \<in> set js \<Longrightarrow> b ! i = b' ! i) \<Longrightarrow> crc_run b js c = crc_run b' js c"
  by (induction js arbitrary: c) (simp_all add: crc_run_def)

lemma xor_cancel_left: "a XOR b = a XOR c \<Longrightarrow> b = c" for a :: uint8
proof -
  assume h: "a XOR b = a XOR c"
  have "a XOR (a XOR b) = a XOR (a XOR c)" by (simp only: h)
  then show ?thesis by (simp add: xor.assoc [symmetric])
qed

lemma xor_cancel_right: "b XOR a = c XOR a \<Longrightarrow> b = c" for a :: uint8
  using xor_cancel_left [of a b c] by (simp add: xor.commute)

lemma crc_run_inj: "c \<noteq> c' \<Longrightarrow> crc_run b js c \<noteq> crc_run b js c'"
proof (induction js arbitrary: c c')
  case Nil
  then show ?case by (simp add: crc_run_def)
next
  case (Cons j js)
  have "crc_table ! unat (c XOR b ! j) \<noteq> crc_table ! unat (c' XOR b ! j)"
  proof
    assume "crc_table ! unat (c XOR b ! j) = crc_table ! unat (c' XOR b ! j)"
    then have "c XOR b ! j = c' XOR b ! j" by (rule crc_lookup_inj)
    then show False using Cons.prems by (auto dest: xor_cancel_right)
  qed
  from Cons.IH [OF this] show ?case by (simp add: crc_run_def)
qed

lemma crc_run_single_diff:
  assumes j: "j < k" and diff: "b' ! j \<noteq> b ! j"
    and same: "\<And>i. i < k \<Longrightarrow> i \<noteq> j \<Longrightarrow> b' ! i = b ! i"
  shows "crc_run b' [0..<k] c \<noteq> crc_run b [0..<k] c"
proof -
  have split: "[0..<k] = [0..<j] @ [j] @ [Suc j..<k]"
    using j by (metis append_Cons append_Nil le_add1 less_imp_add_positive less_or_eq_imp_le upt_add_eq_append upt_conv_Cons zero_le)
  have pre: "crc_run b' [0..<j] c = crc_run b [0..<j] c"
    by (rule crc_run_cong) (use j same in auto)
  let ?c1 = "crc_run b [0..<j] c"
  have at: "crc_run b' [j] ?c1 \<noteq> crc_run b [j] ?c1"
  proof
    assume "crc_run b' [j] ?c1 = crc_run b [j] ?c1"
    then have "?c1 XOR b' ! j = ?c1 XOR b ! j"
      by (simp add: crc_run_def crc_lookup_inj)
    then show False using diff by (auto dest: xor_cancel_left)
  qed
  have suf: "crc_run b' [Suc j..<k] d = crc_run b [Suc j..<k] d" for d
    by (rule crc_run_cong) (use same in auto)
  show ?thesis
    unfolding split crc_run_append pre suf
    by (rule crc_run_inj) (use at pre in simp)
qed

lemma unat_pred: "w \<noteq> 0 \<Longrightarrow> unat (w - 1) = unat w - 1" for w :: uint8
  by (simp add: unat_minus_one)

lemma crc_position_less: "3 \<le> len \<Longrightarrow> unat (crc_position b len) < unat len"
proof -
  assume h: "3 \<le> len"
  then have "3 \<le> unat len" by (simp add: word_le_nat_alt)
  then have nz: "len \<noteq> 0" by auto
  show ?thesis
    using nz \<open>3 \<le> unat len\<close>
    by (auto simp: crc_position_def Let_def unat_pred word_le_nat_alt not_le)
qed

lemma calculateCRC_eq:
  "3 \<le> len \<Longrightarrow>
   calculateCRC s (Some b) len =
     (crc_run b [0..<unat (crc_position b len)] (crc_table ! unat ((0 :: uint8) XOR 0x10)),
      Some (b[unat (crc_position b len) :=
                crc_run b [0..<unat (crc_position b len)] (crc_table ! unat ((0 :: uint8) XOR 0x10))]),
      s, 1 # [0..<unat (crc_position b len)] @ [unat (crc_position b len)])"
  by (simp add: calculateCRC_def Let_def crc_loop_eq not_less [symmetric])

lemma verifyCRC_eq:
  "3 \<le> len \<Longrightarrow>
   verifyCRC s (Some b) len =
     (let ok = (crc_run b [0..<unat (crc_position b len)] (crc_table ! unat ((0 :: uint8) XOR 0x10))
                = b ! unat (crc_position b len))
      in (ok, (if \<not> ok then s\<lparr>lastError := DGT_ERROR_CRC\<rparr> else s),
          1 # [0..<unat (crc_position b len)] @ [unat (crc_position b len)]))"
  by (simp add: verifyCRC_def Let_def crc_loop_eq not_less [symmetric])

lemma crc_position_consistent:
  assumes n: "3 \<le> n" and f: "b ! 1 = 0 \<or> n \<le> b ! 1"
  shows "crc_position b n = n - 1"
proof (cases "b ! 1 = 0")
  case True
  then show ?thesis using word_n1_ge [of n] by (simp add: crc_position_def Let_def)
next
  case False
  with f have le: "n \<le> b ! 1" by simp
  have un: "3 \<le> unat n" using n by (simp add: word_le_nat_alt)
  have "unat n \<le> unat (b ! 1)" using le by (simp add: word_le_nat_alt)
  then have "n \<le> b ! 1 - 1 \<or> b ! 1 - 1 = n - 1"
    using False un by (auto simp: word_le_nat_alt unat_pred word_unat_eq_iff)
  then show ?thesis by (auto simp: crc_position_def Let_def)
qed

lemma xor_nonzero_neq: "d \<noteq> 0 \<Longrightarrow> a XOR d \<noteq> a" for a :: uint8
proof
  assume d: "d \<noteq> 0" and e: "a XOR d = a"
  from e have "a XOR d = a XOR 0" by simp
  then have "d = 0" by (rule xor_cancel_left)
  with d show False by simp
qed

lemmas crc_eval = calculateCRC_def verifyCRC_def crc_position_def crc_loop_def crc_step_def
  Let_def upt_rec crc_table_def DGT3000_ctor_def

subsection \<open>Index bounds\<close>

text \<open>
  Claim C10. For a buffer and a length of at least 3, \<open>calculateCRC\<close> and \<open>verifyCRC\<close>
  clamp the CRC position taken from the length field (\<open>buffer[1] - 1\<close>) to at most
  \<open>length - 1\<close>, and every buffer index either function reads or writes is below
  \<open>length\<close>, whatever the length field holds. For a length below 3 or a null buffer both
  take the error branch: \<open>calculateCRC\<close> returns 0 and \<open>verifyCRC\<close> returns \<open>false\<close>, the
  buffer is not touched (the buffer is returned as it was and the list of touched
  indices is empty), and the last error is \<open>DGT_ERROR_CRC\<close>.
\<close>

theorem crc_index_bounds:
  "(3 \<le> len \<longrightarrow>
      unat (crc_position b len) \<le> unat len - 1
      \<and> (\<forall>i \<in> set (snd (snd (snd (calculateCRC s (Some b) len)))). i < unat len)
      \<and> (\<forall>i \<in> set (snd (snd (verifyCRC s (Some b) len))). i < unat len))
   \<and> (len < 3 \<or> buffer = None \<longrightarrow>
        calculateCRC s buffer len = (0, buffer, s\<lparr>lastError := DGT_ERROR_CRC\<rparr>, [])
        \<and> verifyCRC s buffer len = (False, s\<lparr>lastError := DGT_ERROR_CRC\<rparr>, []))"
proof (intro conjI impI)
  assume h: "3 \<le> len"
  have p: "unat (crc_position b len) < unat len" by (rule crc_position_less [OF h])
  have "3 \<le> unat len" using h by (simp add: word_le_nat_alt)
  then have one: "1 < unat len" by simp
  show "unat (crc_position b len) \<le> unat len - 1" using p by simp
  show "\<forall>i \<in> set (snd (snd (snd (calculateCRC s (Some b) len)))). i < unat len"
    using p one by (auto simp: calculateCRC_eq [OF h])
  show "\<forall>i \<in> set (snd (snd (verifyCRC s (Some b) len))). i < unat len"
    using p one by (auto simp: verifyCRC_eq [OF h] Let_def)
next
  assume "len < 3 \<or> buffer = None"
  then show "calculateCRC s buffer len = (0, buffer, s\<lparr>lastError := DGT_ERROR_CRC\<rparr>, [])"
    by (auto simp: calculateCRC_def split: option.splits)
next
  assume "len < 3 \<or> buffer = None"
  then show "verifyCRC s buffer len = (False, s\<lparr>lastError := DGT_ERROR_CRC\<rparr>, [])"
    by (auto simp: verifyCRC_def split: option.splits)
qed

text \<open>
  The theorem at a 3-byte frame whose length field (0xFF) is larger than the buffer, and
  at a 2-byte buffer.
\<close>

theorem crc_index_bounds_witness:
  "(3 :: uint8) \<le> 3
   \<and> snd (snd (snd (calculateCRC DGT3000_ctor (Some [0x20, 0xFF, 0x0B]) 3))) = [1, 0, 1, 2]
   \<and> unat (crc_position [0x20, 0xFF, 0x0B] 3) \<le> unat (3 :: uint8) - 1
   \<and> (2 :: uint8) < 3
   \<and> calculateCRC DGT3000_ctor (Some [0x20, 0x04]) 2
       = (0, Some [0x20, 0x04], DGT3000_ctor\<lparr>lastError := DGT_ERROR_CRC\<rparr>, [])"
proof -
  have h1: "(3 :: uint8) \<le> 3" by simp
  have h2: "(2 :: uint8) < 3" by simp
  have t: "snd (snd (snd (calculateCRC DGT3000_ctor (Some [0x20, 0xFF, 0x0B]) 3))) = [1, 0, 1, 2]"
    by (simp add: calculateCRC_def crc_position_def crc_loop_def crc_step_def Let_def upt_rec)
  show ?thesis
    using h1 h2 t
      crc_index_bounds [of 3 "[0x20, 0xFF, 0x0B]" DGT3000_ctor "Some [0x20, 0x04]"]
      crc_index_bounds [of 2 "[0x20, 0x04]" DGT3000_ctor "Some [0x20, 0x04]"]
    by simp
qed

subsection \<open>Round trip and error detection\<close>

text \<open>
  Claim C1, as amended. Let \<open>F\<close> be a frame of \<open>n \<ge> 3\<close> bytes whose length field \<open>F[1]\<close> is
  \<open>n\<close>, and \<open>G\<close> the buffer that \<open>calculateCRC(F, n)\<close> leaves. Then \<open>verifyCRC(G, n)\<close> returns
  \<open>true\<close>. Flipping one bit \<open>k\<close> of one byte \<open>G[i]\<close> with \<open>i \<le> n - 2\<close> makes \<open>verifyCRC\<close> return
  \<open>false\<close>, provided that a flip in the length field (\<open>i = 1\<close>) leaves a value that is 0
  or greater than \<open>n\<close>, so that the CRC position stays \<open>n - 1\<close>. Running the same table
  loop over \<open>G[0..n-2]\<close> from a consumed address byte other than 0x10 gives a value
  different from the stored CRC byte. The functions start from 0, consume 0x10 and then
  the frame bytes before the CRC slot, through the 256-entry table (their definitions).
\<close>

theorem crc_round_trip:
  assumes n: "3 \<le> n" and len: "length F = unat n" and field: "F ! 1 = n"
    and seal: "calculateCRC s (Some F) n = (crc, Some G, s', touched)"
  shows "fst (verifyCRC s'' (Some G) n)
         \<and> (\<forall>i k. i < unat n - 1 \<and> k < 8
                \<and> (i = 1 \<longrightarrow> G ! 1 XOR push_bit k 1 = 0 \<or> n < G ! 1 XOR push_bit k 1)
              \<longrightarrow> \<not> fst (verifyCRC s'' (Some (G[i := G ! i XOR push_bit k 1])) n))
         \<and> (\<forall>a. a \<noteq> 0x10
              \<longrightarrow> fst (crc_loop G (n - 1) (crc_table ! unat ((0 :: uint8) XOR a), [1]))
                    \<noteq> G ! unat (n - 1))"
proof -
  let ?c0 = "crc_table ! unat ((0 :: uint8) XOR 0x10)"
  let ?p = "unat n - 1"
  have un: "3 \<le> unat n" using n by (simp add: word_le_nat_alt)
  then have nz: "n \<noteq> 0" by auto
  have up: "unat (n - 1) = ?p" using nz by (rule unat_pred)
  have posF: "crc_position F n = n - 1"
    by (rule crc_position_consistent [OF n]) (use field in simp)
  have G: "G = F[?p := crc]" and crc: "crc = crc_run F [0..<?p] ?c0"
    using seal by (auto simp: calculateCRC_eq [OF n] posF up)
  have lenG: "length G = unat n" by (simp add: G len)
  have G1: "G ! 1 = n" using un field by (simp add: G)
  have Gp: "G ! ?p = crc" using un by (simp add: G len)
  have runG: "crc_run G [0..<?p] ?c0 = crc"
    unfolding crc by (rule crc_run_cong) (simp add: G)
  have posG: "crc_position G n = n - 1"
    by (rule crc_position_consistent [OF n]) (use G1 in simp)
  have ok: "fst (verifyCRC s'' (Some G) n)"
    using runG Gp by (simp add: verifyCRC_eq [OF n] posG up Let_def)
  have flips: "\<not> fst (verifyCRC s'' (Some (G[i := G ! i XOR push_bit k 1])) n)"
    if i: "i < ?p" and k: "k < 8"
      and i1: "i = 1 \<longrightarrow> G ! 1 XOR push_bit k 1 = 0 \<or> n < G ! 1 XOR push_bit k 1"
    for i k
  proof -
    let ?G' = "G[i := G ! i XOR push_bit k 1]"
    have bk: "bit (push_bit k 1 :: uint8) k" using k by (simp add: bit_simps)
    have bitnz: "(push_bit k 1 :: uint8) \<noteq> 0"
    proof
      assume z: "(push_bit k 1 :: uint8) = 0"
      have "bit (0 :: uint8) k" using bk unfolding z .
      then show False by simp
    qed
    have ilen: "i < length G" using i un by (simp add: lenG)
    have upd: "?G' ! i = G ! i XOR push_bit k 1" using ilen by (rule nth_list_update_eq)
    have diff: "?G' ! i \<noteq> G ! i" unfolding upd by (rule xor_nonzero_neq [OF bitnz])
    have same: "\<And>j. j < ?p \<Longrightarrow> j \<noteq> i \<Longrightarrow> ?G' ! j = G ! j" by simp
    have pos': "crc_position ?G' n = n - 1"
    proof (rule crc_position_consistent [OF n])
      show "?G' ! 1 = 0 \<or> n \<le> ?G' ! 1"
      proof (cases "i = 1")
        case True
        then show ?thesis using i1 ilen by auto
      next
        case False
        then show ?thesis using G1 by simp
      qed
    qed
    have G'p: "?G' ! ?p = crc" using i Gp by simp
    have "crc_run ?G' [0..<?p] ?c0 \<noteq> crc_run G [0..<?p] ?c0"
      by (rule crc_run_single_diff [OF i diff same])
    then show ?thesis
      using runG G'p pos' by (simp add: verifyCRC_eq [OF n] up Let_def)
  qed
  have seed: "fst (crc_loop G (n - 1) (crc_table ! unat ((0 :: uint8) XOR a), [1])) \<noteq> G ! unat (n - 1)"
    if a: "a \<noteq> 0x10" for a :: uint8
  proof -
    have "crc_table ! unat ((0 :: uint8) XOR a) \<noteq> ?c0"
    proof
      assume "crc_table ! unat ((0 :: uint8) XOR a) = ?c0"
      then have "(0 :: uint8) XOR a = 0 XOR 0x10" by (rule crc_lookup_inj)
      then show False using a by simp
    qed
    then have "crc_run G [0..<?p] (crc_table ! unat ((0 :: uint8) XOR a)) \<noteq> crc_run G [0..<?p] ?c0"
      by (rule crc_run_inj)
    then show ?thesis using runG Gp by (simp add: crc_loop_eq up)
  qed
  show ?thesis using ok flips seed by blast
qed

text \<open>The theorem at the frame \<open>20 03 00\<close>, with bit 0 of byte 0 flipped afterwards.\<close>

theorem crc_round_trip_witness:
  "(3 :: uint8) \<le> 3 \<and> length [0x20 :: uint8, 0x03, 0x00] = unat (3 :: uint8)
   \<and> [0x20 :: uint8, 0x03, 0x00] ! 1 = 3
   \<and> calculateCRC DGT3000_ctor (Some [0x20, 0x03, 0x00]) 3
       = (0x05, Some [0x20, 0x03, 0x05], DGT3000_ctor, [1, 0, 1, 2])
   \<and> fst (verifyCRC DGT3000_ctor (Some [0x20, 0x03, 0x05]) 3)
   \<and> \<not> fst (verifyCRC DGT3000_ctor (Some [0x21, 0x03, 0x05]) 3)"
proof -
  have h1: "(3 :: uint8) \<le> 3" by simp
  have h2: "length [0x20 :: uint8, 0x03, 0x00] = unat (3 :: uint8)" by simp
  have h3: "[0x20 :: uint8, 0x03, 0x00] ! 1 = 3" by simp
  have h4: "calculateCRC DGT3000_ctor (Some [0x20, 0x03, 0x00]) 3
       = (0x05, Some [0x20, 0x03, 0x05], DGT3000_ctor, [1, 0, 1, 2])"
    by (simp add: crc_eval)
  note t = crc_round_trip [OF h1 h2 h3 h4, of DGT3000_ctor]
  have a: "fst (verifyCRC DGT3000_ctor (Some [0x20, 0x03, 0x05]) 3)"
    using t by (rule conjunct1)
  have b: "\<not> fst (verifyCRC DGT3000_ctor (Some [0x21, 0x03, 0x05]) 3)"
    using t [THEN conjunct2, THEN conjunct1, rule_format, of 0 0] by simp
  show ?thesis using h1 h2 h3 h4 a b by blast
qed

text \<open>
  Claim C1 as stated fails for the length field. The frame \<open>70 03 00\<close> is sealed to
  \<open>70 03 09\<close>; flipping bit 1 of its byte 1 gives the length field 1, the CRC position
  moves to byte 0, whose value 0x70 is the CRC of the address byte alone, and
  \<open>verifyCRC\<close> returns \<open>true\<close>.
\<close>

theorem crc_length_field_flip_counterexample:
  "calculateCRC DGT3000_ctor (Some [0x70, 0x03, 0x00]) 3
     = (0x09, Some [0x70, 0x03, 0x09], DGT3000_ctor, [1, 0, 1, 2])
   \<and> [0x70, 0x03, 0x09 :: uint8] ! 1 XOR push_bit 1 1 = 0x01
   \<and> fst (verifyCRC DGT3000_ctor (Some ([0x70, 0x03, 0x09][1 := 0x01])) 3)"
  by (simp add: crc_eval)

section \<open>Error translation\<close>

text \<open>
  Claim C6, as amended. \<open>mapDGTErrorToSystemError\<close> maps \<open>I2C_COMM\<close> and \<open>I2C_INIT\<close> to
  \<open>I2C_COMMUNICATION_ERROR\<close>, \<open>TIMEOUT\<close> and \<open>NO_ACK\<close> to \<open>COMMAND_TIMEOUT\<close>, \<open>NOT_CONFIGURED\<close>
  to \<open>DGT_NOT_CONFIGURED\<close>, \<open>CRC\<close> to \<open>I2C_CRC_ERROR\<close>, \<open>CLOCK_OFF\<close> to \<open>DGT_NOT_CONNECTED\<close>,
  and every other value to \<open>UNKNOWN_ERROR\<close>.
\<close>

theorem mapDGTErrorToSystemError_mapping:
  "mapDGTErrorToSystemError DGT_ERROR_I2C_COMM = I2C_COMMUNICATION_ERROR
   \<and> mapDGTErrorToSystemError DGT_ERROR_I2C_INIT = I2C_COMMUNICATION_ERROR
   \<and> mapDGTErrorToSystemError DGT_ERROR_TIMEOUT = COMMAND_TIMEOUT
   \<and> mapDGTErrorToSystemError DGT_ERROR_NO_ACK = COMMAND_TIMEOUT
   \<and> mapDGTErrorToSystemError DGT_ERROR_NOT_CONFIGURED = DGT_NOT_CONFIGURED
   \<and> mapDGTErrorToSystemError DGT_ERROR_CRC = I2C_CRC_ERROR
   \<and> mapDGTErrorToSystemError DGT_ERROR_CLOCK_OFF = DGT_NOT_CONNECTED
   \<and> (\<forall>e. e \<notin> {DGT_ERROR_I2C_COMM, DGT_ERROR_I2C_INIT, DGT_ERROR_TIMEOUT, DGT_ERROR_NO_ACK,
                 DGT_ERROR_NOT_CONFIGURED, DGT_ERROR_CRC, DGT_ERROR_CLOCK_OFF}
          \<longrightarrow> mapDGTErrorToSystemError e = UNKNOWN_ERROR)"
  by (simp add: mapDGTErrorToSystemError_def)

text \<open>The last part at \<open>BUFFER_OVERRUN\<close>, \<open>INIT_FAILED\<close> and \<open>DGT_SUCCESS\<close>.\<close>

theorem mapDGTErrorToSystemError_mapping_witness:
  "DGT_ERROR_BUFFER_OVERRUN \<notin> {DGT_ERROR_I2C_COMM, DGT_ERROR_I2C_INIT, DGT_ERROR_TIMEOUT,
       DGT_ERROR_NO_ACK, DGT_ERROR_NOT_CONFIGURED, DGT_ERROR_CRC, DGT_ERROR_CLOCK_OFF}
   \<and> mapDGTErrorToSystemError DGT_ERROR_BUFFER_OVERRUN = UNKNOWN_ERROR
   \<and> mapDGTErrorToSystemError DGT_ERROR_INIT_FAILED = UNKNOWN_ERROR
   \<and> mapDGTErrorToSystemError DGT_SUCCESS = UNKNOWN_ERROR"
  using mapDGTErrorToSystemError_mapping by simp

text \<open>
  Claim C6 as stated sends every value outside its list to \<open>UNKNOWN_ERROR\<close>. \<open>I2C_INIT\<close>
  is outside that list and is mapped to \<open>I2C_COMMUNICATION_ERROR\<close>: the \<open>switch\<close> has a
  \<open>case\<close> label for it next to \<open>I2C_COMM\<close>.
\<close>

theorem mapDGTErrorToSystemError_i2c_init_counterexample:
  "DGT_ERROR_I2C_INIT \<notin> {DGT_ERROR_I2C_COMM, DGT_ERROR_TIMEOUT, DGT_ERROR_NO_ACK,
       DGT_ERROR_NOT_CONFIGURED, DGT_ERROR_CRC, DGT_ERROR_CLOCK_OFF}
   \<and> mapDGTErrorToSystemError DGT_ERROR_I2C_INIT \<noteq> UNKNOWN_ERROR"
  by (simp add: mapDGTErrorToSystemError_def)

section \<open>Inbound time frames\<close>

lemma unat_low_nibble: "unat (b AND 0x0F) = unat b mod 16" for b :: uint8
proof -
  have "b AND 0x0F = take_bit 4 b" by (simp add: take_bit_eq_mask mask_eq_exp_minus_1)
  then have "unat (b AND 0x0F) = unat (take_bit 4 b)" by (simp only:)
  also have "\<dots> = take_bit 4 (unat b)" by (rule unsigned_take_bit_eq)
  also have "\<dots> = unat b mod 16" by (simp add: take_bit_eq_mod)
  finally show ?thesis .
qed

lemma unat_high_nibble: "unat (drop_bit 4 b) = unat b div 16" for b :: uint8
  by (simp add: drop_bit_eq_div unat_div)

lemma unat_bcdToDec: "unat (bcdToDec b) = bcd_decode b"
proof -
  have lo: "unat b mod 16 < 16" by simp
  have "unat b < 256" using unsigned_less [of b, where ?'a = nat] by simp
  then have hi: "unat b div 16 < 16" by simp
  have m: "unat (drop_bit 4 b * 10) = unat b div 16 * 10"
    using hi by (simp add: unat_word_ariths unat_high_nibble)
  have small: "unat b div 16 * 10 < 256" using hi by simp
  have "unat (bcdToDec b) = (unat b div 16 * 10 + unat b mod 16) mod 256"
    using small by (simp add: bcdToDec_def unat_word_ariths unat_high_nibble unat_low_nibble)
  also have "\<dots> = unat b div 16 * 10 + unat b mod 16"
    using hi lo by simp
  finally show ?thesis by (simp add: bcd_decode_def)
qed

text \<open>
  Claim C7. \<open>processTimeMessage\<close> returns the object as it was, so the stored time, the
  \<open>new_time\<close> flag and the connected and configured flags are unchanged, whenever the
  frame is an echo (more than 19 bytes with byte 19 equal to 1), is shorter than 14
  bytes, has a length byte other than 0x18, or carries a field outside its range: hours
  (the low nibble of bytes 4 and 10) above 9, or minutes or seconds (the BCD bytes 5, 6,
  11 and 12) above 59.
\<close>

theorem processTimeMessage_drops:
  assumes "(19 < len \<and> buffer ! 19 = 1) \<or> len < 14 \<or> buffer ! 1 \<noteq> 0x18
           \<or> 9 < unat (buffer ! 4) mod 16 \<or> 59 < bcd_decode (buffer ! 5)
           \<or> 59 < bcd_decode (buffer ! 6)
           \<or> 9 < unat (buffer ! 10) mod 16 \<or> 59 < bcd_decode (buffer ! 11)
           \<or> 59 < bcd_decode (buffer ! 12)"
  shows "processTimeMessage buffer len s = s"
  using assms
  by (auto simp: processTimeMessage_def Let_def word_less_nat_alt unat_low_nibble unat_bcdToDec)

text \<open>The theorem at a frame with 60 left minutes and at a frame of 13 bytes.\<close>

theorem processTimeMessage_drops_witness:
  "59 < bcd_decode ([0x10, 0x18, 0x04, 0x00, 0x01, 0x60, 0x00, 0, 0, 0, 0x01, 0x30, 0x00, 0] ! 5)
   \<and> processTimeMessage [0x10, 0x18, 0x04, 0x00, 0x01, 0x60, 0x00, 0, 0, 0, 0x01, 0x30, 0x00, 0] 14
         (DGT3000_ctor\<lparr>initialized := True\<rparr>) = DGT3000_ctor\<lparr>initialized := True\<rparr>
   \<and> (13 :: uint8) < 14
   \<and> processTimeMessage [0x10, 0x18, 0x04, 0x00, 0x01, 0x30, 0x00, 0, 0, 0, 0x01, 0x30, 0x00] 13
         (DGT3000_ctor\<lparr>initialized := True\<rparr>) = DGT3000_ctor\<lparr>initialized := True\<rparr>"
proof -
  have h1: "59 < bcd_decode ([0x10, 0x18, 0x04, 0x00, 0x01, 0x60, 0x00, 0, 0, 0, 0x01, 0x30, 0x00, 0] ! 5)"
    by (simp add: bcd_decode_def)
  have h2: "(13 :: uint8) < 14" by simp
  show ?thesis
    using h1 h2
      processTimeMessage_drops [of 14 "[0x10, 0x18, 0x04, 0x00, 0x01, 0x60, 0x00, 0, 0, 0, 0x01, 0x30, 0x00, 0]"
        "DGT3000_ctor\<lparr>initialized := True\<rparr>"]
      processTimeMessage_drops [of 13 "[0x10, 0x18, 0x04, 0x00, 0x01, 0x30, 0x00, 0, 0, 0, 0x01, 0x30, 0x00]"
        "DGT3000_ctor\<lparr>initialized := True\<rparr>"]
    by simp
qed

section \<open>Inbound button frames\<close>

lemma mask_bit5: "(x AND 0x20 \<noteq> 0) = bit x 5" for x :: uint8
  using and_exp_eq_0_iff_not_bit [of x 5] by simp

lemma mask_bit6: "(x AND 0x40 \<noteq> 0) = bit x 6" for x :: uint8
  using and_exp_eq_0_iff_not_bit [of x 6] by simp

text \<open>
  Claim C3. For a button frame (at least 5 bytes, type byte 5) carrying the pair
  \<open>(current, previous)\<close>, \<open>processButtonMessage\<close> records \<open>current\<close> as the last button state
  and then puts into the ring buffer the one event that the specification's priority
  order selects: \<open>ON_OFF_PRESS\<close> or \<open>ON_OFF_RELEASE\<close> if the on/off bit changed, else
  \<open>LEVER_LEFT\<close> or \<open>LEVER_RIGHT\<close> if the lever bit changed, else
  \<open>changed AND current AND 0x1F\<close> if that is not zero; in the remaining case, which the
  claim's last clause leaves without an event, nothing is put into the ring. One frame
  never gives two events.
\<close>

theorem processButtonMessage_classification:
  assumes "5 \<le> len" and "b ! 2 = 5"
  shows "processButtonMessage (Some b) len s =
           (let s1 = s\<lparr>rxData := (rxData s)\<lparr>lastButtonState := b ! 3\<rparr>\<rparr>
            in case button_event_spec (b ! 3) (b ! 4) of
                 None \<Rightarrow> s1
               | Some event \<Rightarrow> addButtonEvent event s1)"
proof -
  have z: "bit (0 :: uint8) n = False" for n by simp
  show ?thesis
    using assms
    by (auto simp: processButtonMessage_def button_event_spec_def Let_def mask_bit5 mask_bit6
          not_le [symmetric])
qed

lemmas ring_eval = addButtonEvent_def isButtonBufferFull_def getButtonEvent_def
  DGT3000_ctor_def resetRxData_def Let_def

text \<open>
  The theorem at three frames: play/pause pressed, on/off and lever changing together
  (the on/off event alone is read back), and play/pause released (no event).
\<close>

theorem processButtonMessage_classification_witness:
  "(5 :: uint8) \<le> 6 \<and> [0x10, 0x06, 0x05, 0x04, 0x00, 0x00] ! 2 = (5 :: uint8)
   \<and> fst (getButtonEvents (Suc (Suc 0))
         (processButtonMessage (Some [0x10, 0x06, 0x05, 0x04, 0x00, 0x00]) 6
            (DGT3000_ctor\<lparr>initialized := True\<rparr>))) = [Some 0x04, None]
   \<and> fst (getButtonEvents (Suc (Suc 0))
         (processButtonMessage (Some [0x10, 0x06, 0x05, 0x60, 0x00, 0x00]) 6
            (DGT3000_ctor\<lparr>initialized := True\<rparr>))) = [Some 0x20, None]
   \<and> fst (getButtonEvents (Suc 0)
         (processButtonMessage (Some [0x10, 0x06, 0x05, 0x00, 0x04, 0x00]) 6
            (DGT3000_ctor\<lparr>initialized := True\<rparr>))) = [None]"
proof -
  let ?s = "DGT3000_ctor\<lparr>initialized := True\<rparr>"
  have h1: "(5 :: uint8) \<le> 6" by simp
  have h2: "[0x10, 0x06, 0x05, 0x04, 0x00, 0x00] ! 2 = (5 :: uint8)" by simp
  have h3: "[0x10, 0x06, 0x05, 0x60, 0x00, 0x00] ! 2 = (5 :: uint8)" by simp
  have h4: "[0x10, 0x06, 0x05, 0x00, 0x04, 0x00] ! 2 = (5 :: uint8)" by simp
  show ?thesis
    unfolding processButtonMessage_classification [OF h1 h2, of ?s]
      processButtonMessage_classification [OF h1 h3, of ?s]
      processButtonMessage_classification [OF h1 h4, of ?s]
    by (simp add: button_event_spec_def ring_eval)
qed

section \<open>The button ring buffer\<close>

lemma readable_length:
  "length (readable_events s) = (buttonEnd (rxData s) + 16 - buttonStart (rxData s)) mod 16"
  by (simp add: readable_events_def Let_def)

lemma readable_le_15: "length (readable_events s) \<le> 15"
  by (simp add: readable_length)

lemma m16: "x < 32 \<Longrightarrow> x mod 16 = (if x < 16 then x else x - 16)" for x :: nat
  by (simp add: mod_if)

lemma map_shift: "map (\<lambda>j. f (Suc j)) [0..<n] = map f [Suc 0..<Suc n]"
  by (rule nth_equalityI) (simp_all del: upt_Suc)

lemma mod16_step:
  fixes st en j n :: nat
  assumes "st < 16" "en < 16" "n = (en + 16 - st) mod 16" "j \<le> n"
  shows "((st + j) mod 16 = en) = (j = n)"
  using assms by (auto simp: m16 split: if_splits)

lemma addButtonEvent_ok: "ring_ok s \<Longrightarrow> ring_ok (addButtonEvent b s)"
  by (simp add: ring_ok_def addButtonEvent_def Let_def)

lemma addButtonEvent_readable:
  assumes ok: "ring_ok s"
  shows "readable_events (addButtonEvent b s) =
           (if length (readable_events s) < 15 then readable_events s @ [b]
            else tl (readable_events s) @ [b])"
proof -
  let ?r = "rxData s"
  let ?st = "buttonStart ?r" and ?en = "buttonEnd ?r" and ?buf = "buttonBuffer ?r"
  let ?n = "(?en + 16 - ?st) mod 16"
  have st: "?st < 16" and en: "?en < 16" and len: "length ?buf = 16"
    using ok by (simp_all add: ring_ok_def)
  show ?thesis
  proof (cases "isButtonBufferFull s")
    case False
    then have nf: "(?en + 1) mod 16 \<noteq> ?st" by (simp add: isButtonBufferFull_def)
    have n15: "?n < 15" using st en nf by (auto simp: m16 split: if_splits)
    have n': "((?en + 1) mod 16 + 16 - ?st) mod 16 = Suc ?n"
      using st en nf by (auto simp: m16 split: if_splits)
    have "readable_events (addButtonEvent b s) =
            map (\<lambda>j. ?buf[?en := b] ! ((?st + j) mod 16))
              [0..<((?en + 1) mod 16 + 16 - ?st) mod 16]"
      using False by (simp add: readable_events_def addButtonEvent_def Let_def del: upt_Suc)
    also have "\<dots> = map (\<lambda>j. ?buf[?en := b] ! ((?st + j) mod 16)) [0..<Suc ?n]"
      by (simp only: n')
    also have "\<dots> = map (\<lambda>j. ?buf ! ((?st + j) mod 16)) [0..<?n] @ [b]"
    proof -
      have a: "?buf[?en := b] ! ((?st + j) mod 16) = ?buf ! ((?st + j) mod 16)" if "j < ?n" for j
        using mod16_step [OF st en refl, of j] that by (simp add: nth_list_update)
      have b: "?buf[?en := b] ! ((?st + ?n) mod 16) = b"
        using mod16_step [OF st en refl, of ?n] en len by simp
      show ?thesis using a b by simp
    qed
    finally show ?thesis using n15 by (simp add: readable_events_def Let_def)
  next
    case True
    then have f: "(?en + 1) mod 16 = ?st" by (simp add: isButtonBufferFull_def)
    have n15: "?n = 15" using st en f by (auto simp: m16 split: if_splits)
    let ?st' = "(?st + 1) mod 16"
    have n': "((?en + 1) mod 16 + 16 - ?st') mod 16 = 15"
      using st en f by (auto simp: m16 split: if_splits)
    have "readable_events (addButtonEvent b s) =
            map (\<lambda>j. ?buf[?en := b] ! ((?st' + j) mod 16))
              [0..<((?en + 1) mod 16 + 16 - ?st') mod 16]"
      using True by (simp add: readable_events_def addButtonEvent_def Let_def del: upt_Suc)
    also have "\<dots> = map (\<lambda>j. ?buf[?en := b] ! ((?st' + j) mod 16)) [0..<15]"
      by (simp only: n')
    also have "\<dots> = map (\<lambda>j. ?buf ! ((?st + Suc j) mod 16)) [0..<14] @ [b]"
    proof -
      have a: "?buf[?en := b] ! ((?st' + j) mod 16) = ?buf ! ((?st + Suc j) mod 16)" if "j < 14" for j
      proof -
        have "(?st' + j) mod 16 = (?st + Suc j) mod 16"
          using st that by (auto simp: m16 split: if_splits)
        moreover have "(?st + Suc j) mod 16 \<noteq> ?en"
          using st en f that by (auto simp: m16 split: if_splits)
        ultimately show ?thesis by (simp add: nth_list_update)
      qed
      have "(?st' + 14) mod 16 = ?en" using st en f by (auto simp: m16 split: if_splits)
      then have b: "?buf[?en := b] ! ((?st' + 14) mod 16) = b" using en len by simp
      have "[0..<15] = [0..<14] @ [14]" by (simp add: upt_rec)
      then show ?thesis using a b by simp
    qed
    also have "map (\<lambda>j. ?buf ! ((?st + Suc j) mod 16)) [0..<14] = tl (readable_events s)"
    proof -
      have "readable_events s = map (\<lambda>j. ?buf ! ((?st + j) mod 16)) [0..<Suc 14]"
        using n15 by (simp add: readable_events_def Let_def del: upt_Suc)
      then have "tl (readable_events s) = tl (map (\<lambda>j. ?buf ! ((?st + j) mod 16)) [0..<Suc 14])"
        by (simp only:)
      also have "\<dots> = map (\<lambda>j. ?buf ! ((?st + j) mod 16)) (tl [0..<Suc 14])"
        by (simp only: map_tl)
      also have "\<dots> = map (\<lambda>j. ?buf ! ((?st + j) mod 16)) [Suc 0..<Suc 14]"
        by (simp only: tl_upt)
      finally show ?thesis
        using map_shift [of "\<lambda>j. ?buf ! ((?st + j) mod 16)" 14] by (simp only:)
    qed
    finally show ?thesis using n15 by (simp add: readable_length)
  qed
qed

lemma addButtonEvent_initialized: "initialized (addButtonEvent b s) = initialized s"
  by (simp add: addButtonEvent_def Let_def)

lemma last15_append: "last15 (last15 xs @ ys) = last15 (xs @ ys)"
proof (cases "length xs \<le> 15")
  case True
  then show ?thesis by (simp add: last15_def)
next
  case False
  then have k: "length xs = (length xs - 15) + 15" by simp
  have "last15 (last15 xs @ ys) = drop (length ys) (drop (length xs - 15) xs @ ys)"
    using False by (simp add: last15_def)
  also have "\<dots> = drop (length xs - 15 + length ys) (xs @ ys)"
    using False by (simp add: add.commute)
  also have "\<dots> = last15 (xs @ ys)"
    using False by (simp add: last15_def)
  finally show ?thesis .
qed

lemma last15_short: "length xs \<le> 15 \<Longrightarrow> last15 xs = xs"
  by (simp add: last15_def)

lemma addButtonEvent_last15:
  assumes "ring_ok s"
  shows "readable_events (addButtonEvent b s) = last15 (readable_events s @ [b])"
proof (cases "length (readable_events s) < 15")
  case True
  then show ?thesis by (simp add: addButtonEvent_readable [OF assms] last15_def)
next
  case False
  with readable_le_15 [of s] have l: "length (readable_events s) = 15" by simp
  then have "readable_events s \<noteq> []" by auto
  then have "drop (Suc 0) (readable_events s) = tl (readable_events s)"
    by (simp add: drop_Suc)
  then show ?thesis using l by (simp add: addButtonEvent_readable [OF assms] last15_def)
qed

lemma pushes_readable:
  "ring_ok s \<Longrightarrow>
   ring_ok (fold addButtonEvent events s)
   \<and> initialized (fold addButtonEvent events s) = initialized s
   \<and> readable_events (fold addButtonEvent events s) = last15 (readable_events s @ events)"
proof (induction events arbitrary: s)
  case Nil
  then show ?case using readable_le_15 [of s] by (simp add: last15_short)
next
  case (Cons b events)
  have ok: "ring_ok (addButtonEvent b s)" by (rule addButtonEvent_ok [OF Cons.prems])
  have "last15 (last15 (readable_events s @ [b]) @ events) = last15 (readable_events s @ b # events)"
    by (simp add: last15_append)
  then show ?case
    using Cons.IH [OF ok]
    by (simp add: addButtonEvent_last15 [OF Cons.prems] addButtonEvent_initialized)
qed

lemma getButtonEvent_readable:
  assumes ok: "ring_ok s" and init: "initialized s"
  shows "case readable_events s of
           [] \<Rightarrow> getButtonEvent (Some x) s = (False, Some 0, s\<lparr>lastError := DGT_SUCCESS\<rparr>)
         | e # es \<Rightarrow>
             fst (getButtonEvent (Some x) s) \<and> fst (snd (getButtonEvent (Some x) s)) = Some e
             \<and> readable_events (snd (snd (getButtonEvent (Some x) s))) = es
             \<and> ring_ok (snd (snd (getButtonEvent (Some x) s)))
             \<and> initialized (snd (snd (getButtonEvent (Some x) s)))"
proof -
  let ?r = "rxData s"
  let ?st = "buttonStart ?r" and ?en = "buttonEnd ?r" and ?buf = "buttonBuffer ?r"
  let ?n = "(?en + 16 - ?st) mod 16"
  have st: "?st < 16" and en: "?en < 16" and len: "length ?buf = 16"
    using ok by (simp_all add: ring_ok_def)
  show ?thesis
  proof (cases "?st = ?en")
    case True
    then have "readable_events s = []" by (simp add: readable_events_def Let_def)
    then show ?thesis using True init by (simp add: getButtonEvent_def Let_def)
  next
    case False
    then have "?n \<noteq> 0" using st en by (auto simp: m16 split: if_splits)
    then obtain m where m: "?n = Suc m" by (cases ?n) auto
    have m': "((?en + 16 - (?st + 1) mod 16) mod 16) = m"
      using st en m by (auto simp: m16 split: if_splits)
    have r: "readable_events s = map (\<lambda>j. ?buf ! ((?st + j) mod 16)) [0..<Suc m]"
      by (simp add: readable_events_def Let_def m del: upt_Suc)
    have hd: "readable_events s = ?buf ! ?st # map (\<lambda>j. ?buf ! ((?st + Suc j) mod 16)) [0..<m]"
      unfolding r using st map_shift [of "\<lambda>j. ?buf ! ((?st + j) mod 16)" m]
      by (simp add: upt_rec [of 0 "Suc m"] del: upt_Suc)
    have sh: "(((?st + 1) mod 16) + j) mod 16 = (?st + Suc j) mod 16" for j
      by (simp add: mod_add_left_eq)
    have "readable_events (snd (snd (getButtonEvent (Some x) s)))
            = map (\<lambda>j. ?buf ! ((((?st + 1) mod 16) + j) mod 16)) [0..<(?en + 16 - (?st + 1) mod 16) mod 16]"
      using False init by (simp add: getButtonEvent_def readable_events_def Let_def del: upt_Suc)
    also have "\<dots> = map (\<lambda>j. ?buf ! ((?st + Suc j) mod 16)) [0..<m]"
      by (simp only: m' sh)
    finally have rest: "readable_events (snd (snd (getButtonEvent (Some x) s)))
            = map (\<lambda>j. ?buf ! ((?st + Suc j) mod 16)) [0..<m]" .
    have others: "fst (getButtonEvent (Some x) s)"
      "fst (snd (getButtonEvent (Some x) s)) = Some (?buf ! ?st)"
      "ring_ok (snd (snd (getButtonEvent (Some x) s)))"
      "initialized (snd (snd (getButtonEvent (Some x) s)))"
      using False init ok by (simp_all add: getButtonEvent_def Let_def ring_ok_def)
    show ?thesis unfolding hd using rest others by simp
  qed
qed

lemma getButtonEvents_readable:
  "ring_ok s \<Longrightarrow> initialized s \<Longrightarrow>
   fst (getButtonEvents n s) =
     map Some (take n (readable_events s)) @ replicate (n - length (readable_events s)) None"
proof (induction n arbitrary: s)
  case 0
  then show ?case by simp
next
  case (Suc n)
  note g = getButtonEvent_readable [OF Suc.prems, of 0]
  show ?case
  proof (cases "readable_events s")
    case Nil
    let ?s' = "s\<lparr>lastError := DGT_SUCCESS\<rparr>"
    have e: "getButtonEvent (Some 0) s = (False, Some 0, ?s')" using g Nil by simp
    have ok': "ring_ok ?s'" "initialized ?s'" using Suc.prems by (simp_all add: ring_ok_def)
    have r': "readable_events ?s' = []" using Nil by (simp add: readable_events_def Let_def)
    show ?thesis
      using Suc.IH [OF ok'] Nil
      by (simp add: e r' case_prod_beta)
  next
    case (Cons e es)
    let ?g = "getButtonEvent (Some 0) s"
    have p: "fst ?g" "fst (snd ?g) = Some e" "readable_events (snd (snd ?g)) = es"
      "ring_ok (snd (snd ?g))" "initialized (snd (snd ?g))"
      using g Cons by simp_all
    show ?thesis
      using Suc.IH [OF p(4) p(5)] p(1) p(2) p(3) Cons
      by (cases ?g) (simp add: case_prod_beta)
  qed
qed

lemma reads_after_pushes:
  assumes "initialized s" and "length (buttonBuffer (rxData s)) = 16"
    and "buttonStart (rxData s) < 16" and "buttonEnd (rxData s) = buttonStart (rxData s)"
  shows "fst (getButtonEvents n (fold addButtonEvent events s)) =
           map Some (take n (drop (length events - 15) events))
           @ replicate (n - min (length events) 15) None"
proof -
  have ok: "ring_ok s" using assms by (simp add: ring_ok_def)
  have e: "readable_events s = []" using assms by (simp add: readable_events_def Let_def)
  note p = pushes_readable [OF ok, of events]
  have "fst (getButtonEvents n (fold addButtonEvent events s)) =
          map Some (take n (last15 events)) @ replicate (n - length (last15 events)) None"
    using getButtonEvents_readable [of "fold addButtonEvent events s" n] p assms(1)
    by (simp add: e)
  moreover have "length (last15 events) = min (length events) 15"
    by (simp add: last15_def)
  ultimately show ?thesis by (simp add: last15_def)
qed

text \<open>
  Claim C2, as amended. Start from an empty ring (the two indices equal) of an
  initialized link and push any sequence of events with \<open>addButtonEvent\<close>, with no pop in
  between. Then \<open>n\<close> successive \<open>getButtonEvent\<close> calls return, in insertion order, the
  last 15 events pushed (all of them when at most 15 were pushed), and every further
  call returns \<open>false\<close>. So after \<open>k \<le> 15\<close> pushes the \<open>k\<close> events are read back in order, and
  from the 16th push on each push drops the oldest event.
\<close>

theorem button_ring_last_15:
  assumes "initialized s" and "length (buttonBuffer (rxData s)) = 16"
    and "buttonStart (rxData s) < 16" and "buttonEnd (rxData s) = buttonStart (rxData s)"
  shows "fst (getButtonEvents n (fold addButtonEvent events s)) =
           map Some (take n (drop (length events - 15) events))
           @ replicate (n - min (length events) 15) None"
  using assms by (rule reads_after_pushes)

text \<open>The theorem after 3 pushes and 4 reads, and after 15 pushes and 16 reads.\<close>

theorem button_ring_last_15_witness:
  "initialized (DGT3000_ctor\<lparr>initialized := True\<rparr>)
   \<and> length (buttonBuffer (rxData (DGT3000_ctor\<lparr>initialized := True\<rparr>))) = 16
   \<and> buttonStart (rxData (DGT3000_ctor\<lparr>initialized := True\<rparr>)) < 16
   \<and> buttonEnd (rxData (DGT3000_ctor\<lparr>initialized := True\<rparr>))
       = buttonStart (rxData (DGT3000_ctor\<lparr>initialized := True\<rparr>))
   \<and> fst (getButtonEvents 4 (fold addButtonEvent [1, 2, 4] (DGT3000_ctor\<lparr>initialized := True\<rparr>)))
       = [Some 1, Some 2, Some 4, None]
   \<and> fst (getButtonEvents 16
          (fold addButtonEvent [1, 2, 3, 4, 5, 6, 7, 8, 9, 10, 11, 12, 13, 14, 15]
             (DGT3000_ctor\<lparr>initialized := True\<rparr>)))
       = [Some 1, Some 2, Some 3, Some 4, Some 5, Some 6, Some 7, Some 8, Some 9, Some 10,
          Some 11, Some 12, Some 13, Some 14, Some 15, None]"
proof -
  let ?s = "DGT3000_ctor\<lparr>initialized := True\<rparr>"
  have h1: "initialized ?s" by simp
  have h2: "length (buttonBuffer (rxData ?s)) = 16" by (simp add: DGT3000_ctor_def resetRxData_def)
  have h3: "buttonStart (rxData ?s) < 16" by (simp add: DGT3000_ctor_def resetRxData_def)
  have h4: "buttonEnd (rxData ?s) = buttonStart (rxData ?s)"
    by (simp add: DGT3000_ctor_def resetRxData_def)
  note t = button_ring_last_15 [OF h1 h2 h3 h4]
  have a: "fst (getButtonEvents 4 (fold addButtonEvent [1, 2, 4] ?s)) = [Some 1, Some 2, Some 4, None]"
    unfolding t by simp
  have b: "fst (getButtonEvents 16
          (fold addButtonEvent [1, 2, 3, 4, 5, 6, 7, 8, 9, 10, 11, 12, 13, 14, 15] ?s))
       = [Some 1, Some 2, Some 3, Some 4, Some 5, Some 6, Some 7, Some 8, Some 9, Some 10,
          Some 11, Some 12, Some 13, Some 14, Some 15, None]"
    unfolding t by simp
  show ?thesis using h1 h2 h3 h4 a b by blast
qed

text \<open>
  Claim C2 as stated gives the ring 16 readable events. The ring is full when
  \<open>(buttonEnd + 1) % 16 == buttonStart\<close>, which is at 15 events: after 16 pushes the
  reads return events 2 to 16 and then fail, and after 17 pushes they return events 3
  to 17, not the last 16 pushed.
\<close>

theorem button_ring_sixteenth_push_counterexample:
  "fst (getButtonEvents 16
          (fold addButtonEvent [1, 2, 3, 4, 5, 6, 7, 8, 9, 10, 11, 12, 13, 14, 15, 16]
             (DGT3000_ctor\<lparr>initialized := True\<rparr>)))
     = [Some 2, Some 3, Some 4, Some 5, Some 6, Some 7, Some 8, Some 9, Some 10,
        Some 11, Some 12, Some 13, Some 14, Some 15, Some 16, None]
   \<and> fst (getButtonEvents 16
          (fold addButtonEvent [1, 2, 3, 4, 5, 6, 7, 8, 9, 10, 11, 12, 13, 14, 15, 16, 17]
             (DGT3000_ctor\<lparr>initialized := True\<rparr>)))
     = [Some 3, Some 4, Some 5, Some 6, Some 7, Some 8, Some 9, Some 10,
        Some 11, Some 12, Some 13, Some 14, Some 15, Some 16, Some 17, None]"
proof -
  let ?s = "DGT3000_ctor\<lparr>initialized := True\<rparr>"
  have h1: "initialized ?s" by simp
  have h2: "length (buttonBuffer (rxData ?s)) = 16" by (simp add: DGT3000_ctor_def resetRxData_def)
  have h3: "buttonStart (rxData ?s) < 16" by (simp add: DGT3000_ctor_def resetRxData_def)
  have h4: "buttonEnd (rxData ?s) = buttonStart (rxData ?s)"
    by (simp add: DGT3000_ctor_def resetRxData_def)
  note t = reads_after_pushes [OF h1 h2 h3 h4]
  show ?thesis unfolding t by simp
qed

section \<open>The send operation\<close>


lemma link_le_trans: "link_le s s' \<Longrightarrow> link_le s' s'' \<Longrightarrow> link_le s s''"
  by (auto simp: link_le_def)

lemma setSlaveListenAddress_le:
  "setSlaveListenAddress a (s, e) = (s', e') \<Longrightarrow> link_le s s' \<and> tx_count e' = tx_count e"
  by (auto simp: setSlaveListenAddress_def link_le_def Let_def split: if_splits)

lemma setSlaveListenAddress_revert:
  "setSlaveListenAddress 0 (s, e) = (s', e') \<Longrightarrow> initialized s \<Longrightarrow> i2cSlave s \<Longrightarrow>
   (currentListenAddress s' = 0
    \<or> currentListenAddress s' = 0xFF \<and> lastError s' = DGT_ERROR_I2C_INIT)
   \<and> ((\<forall>k. slave_begin_result e k) \<longrightarrow> currentListenAddress s' = 0)
   \<and> slave_begin_result e' = slave_begin_result e"
  by (auto simp: setSlaveListenAddress_def Let_def split: if_splits)

lemma waitForAck_loop_le: "waitForAck_loop x polls s = (ok, s') \<Longrightarrow> link_le s s'"
proof (induction polls arbitrary: s)
  case Nil
  then show ?case by (auto simp: link_le_def)
next
  case (Cons a polls)
  show ?case
  proof (cases a)
    case None
    with Cons.prems Cons.IH [of s] show ?thesis
      by (auto simp: Let_def link_le_def split: if_splits)
  next
    case (Some c)
    let ?s1 = "s\<lparr>receivedAckCmd := c, newAckReceived := True\<rparr>"
    show ?thesis
    proof (cases "c = x")
      case True
      with Cons.prems Some show ?thesis by (auto simp: Let_def link_le_def)
    next
      case False
      with Cons.prems Some have "waitForAck_loop x polls ?s1 = (ok, s')" by (simp add: Let_def)
      from Cons.IH [OF this] show ?thesis by (simp add: link_le_def)
    qed
  qed
qed

lemma waitForAck_le:
  "waitForAck x (s, e) = (ok, s', e') \<Longrightarrow>
   link_le s s' \<and> tx_count e' = tx_count e \<and> slave_begin_result e' = slave_begin_result e"
proof -
  assume h: "waitForAck x (s, e) = (ok, s', e')"
  show ?thesis
  proof (cases "initialized s")
    case False
    with h show ?thesis by (auto simp: waitForAck_def link_le_def)
  next
    case True
    let ?s1 = "s\<lparr>newAckReceived := False, receivedAckCmd := 0x00\<rparr>"
    obtain ok2 s2 where l: "waitForAck_loop x (ack_arrivals e (ack_wait_count e)) ?s1 = (ok2, s2)"
      by (cases "waitForAck_loop x (ack_arrivals e (ack_wait_count e)) ?s1") auto
    from waitForAck_loop_le [OF l] have "link_le ?s1 s2" .
    moreover have "link_le s ?s1" by (simp add: link_le_def)
    ultimately have "link_le s s2" by (rule link_le_trans [rotated])
    with h True l show ?thesis by (auto simp: waitForAck_def Let_def)
  qed
qed

lemma setSlaveListenAddress_begins:
  "setSlaveListenAddress a (s, e) = (s', e') \<Longrightarrow> slave_begin_result e' = slave_begin_result e"
  by (auto simp: setSlaveListenAddress_def Let_def split: if_splits)

lemma send_attempt_le:
  assumes "send_attempt cmd len a x n tgt r att mx (s, e) = st"
    and "st = Return b (s', e') \<or> st = Continue (s', e')"
  shows "link_le s s' \<and> tx_count e' = Suc (tx_count e)
         \<and> slave_begin_result e' = slave_begin_result e"
proof -
  obtain s1 e1 where a1: "setSlaveListenAddress a (s, e) = (s1, e1)"
    by (cases "setSlaveListenAddress a (s, e)") auto
  note p1 = setSlaveListenAddress_le [OF a1] setSlaveListenAddress_begins [OF a1]
  let ?s2 = "s1\<lparr>newAckReceived := False, receivedAckCmd := 0x00\<rparr>"
  let ?e2 = "e1\<lparr>tx_count := Suc (tx_count e1),
                  wire_log := wire_log e1 @ [(tgt, take (nat len) cmd)]\<rparr>"
  have l2: "link_le s ?s2" using p1 by (simp add: link_le_def)
  obtain ok s3 e3 where a3: "waitForAck x (?s2, ?e2) = (ok, s3, e3)"
    by (cases "waitForAck x (?s2, ?e2)") auto
  note p3 = waitForAck_le [OF a3]
  have l3: "link_le s s3" using l2 p3 by (auto intro: link_le_trans)
  obtain s4 e4 where a4: "setSlaveListenAddress 0 (s3, e3) = (s4, e4)"
    by (cases "setSlaveListenAddress 0 (s3, e3)") auto
  note p4 = setSlaveListenAddress_le [OF a4] setSlaveListenAddress_begins [OF a4]
  have l4: "link_le s s4" using l3 p4 by (auto intro: link_le_trans)
  define result where "result = endTransmission_result e1 (tx_count e1)"
  have sa: "send_attempt cmd len a x n tgt r att mx (s, e) =
      (if result \<noteq> 0 then
         (if r then Continue (?s2\<lparr>lastError := DGT_ERROR_I2C_COMM\<rparr>, ?e2)
          else Return True (?s2\<lparr>lastError := DGT_ERROR_I2C_COMM\<rparr>, ?e2))
       else if n = 0 then Return True (?s2\<lparr>lastError := DGT_SUCCESS\<rparr>, ?e2)
       else if ok then Return True (s4\<lparr>lastError := DGT_SUCCESS\<rparr>, e4)
       else if att < mx then Continue (s3\<lparr>lastError := DGT_ERROR_NO_ACK\<rparr>, e3)
       else Continue (s3, e3))"
    by (simp add: send_attempt_def a1 a3 a4 Let_def result_def)
  have t2: "tx_count ?e2 = Suc (tx_count e)" "slave_begin_result ?e2 = slave_begin_result e"
    using p1 by simp_all
  have t3: "tx_count e3 = Suc (tx_count e)" "slave_begin_result e3 = slave_begin_result e"
    using p3 t2 by simp_all
  have t4: "tx_count e4 = Suc (tx_count e)" "slave_begin_result e4 = slave_begin_result e"
    using p4 t3 by simp_all
  have le_err: "link_le s u \<Longrightarrow> link_le s (u\<lparr>lastError := v\<rparr>)" for u v
    by (simp add: link_le_def)
  consider (txfail) "result \<noteq> 0" | (noack) "result = 0" "n = 0"
    | (ack) "result = 0" "n \<noteq> 0" "ok" | (nak) "result = 0" "n \<noteq> 0" "\<not> ok"
    by blast
  then show ?thesis
  proof cases
    case txfail
    then have "(s', e') = (?s2\<lparr>lastError := DGT_ERROR_I2C_COMM\<rparr>, ?e2)"
      using assms sa by (auto split: if_splits)
    then show ?thesis using le_err [OF l2] t2 by auto
  next
    case noack
    then have "(s', e') = (?s2\<lparr>lastError := DGT_SUCCESS\<rparr>, ?e2)"
      using assms sa by (auto split: if_splits)
    then show ?thesis using le_err [OF l2] t2 by auto
  next
    case ack
    then have "(s', e') = (s4\<lparr>lastError := DGT_SUCCESS\<rparr>, e4)"
      using assms sa by (auto split: if_splits)
    then show ?thesis using le_err [OF l4] t4 by auto
  next
    case nak
    then have "(s', e') = (s3\<lparr>lastError := DGT_ERROR_NO_ACK\<rparr>, e3) \<or> (s', e') = (s3, e3)"
      using assms sa by (auto split: if_splits)
    then show ?thesis using le_err [OF l3] l3 t3 by auto
  qed
qed

lemma send_attempt_Return:
  "send_attempt cmd len a x n tgt r att mx w = Return b w' \<Longrightarrow> b"
  by (cases w) (auto simp: send_attempt_def Let_def split: prod.splits if_splits)

lemma send_loop_props:
  "send_loop cmd len a x n tgt r att mx w = (b, s', e') \<Longrightarrow> w = (s, e) \<Longrightarrow>
   link_le s s' \<and> slave_begin_result e' = slave_begin_result e
   \<and> (\<not> b \<longrightarrow> \<not> connected s' \<and> \<not> configured s'
              \<and> tx_count e' = tx_count e + (Suc mx - att)
              \<and> (initialized s \<and> i2cSlave s \<longrightarrow> reverted e s'))"
proof (induction cmd len a x n tgt r att mx w arbitrary: s e rule: send_loop.induct)
  case (1 cmd len a x n tgt r att mx w)
  show ?case
  proof (cases "att \<le> mx")
    case False
    obtain s1 e1 where a1: "setSlaveListenAddress 0 (s, e) = (s1, e1)"
      by (cases "setSlaveListenAddress 0 (s, e)") auto
    have r: "(b, s', e') = (False, s1\<lparr>connected := False, configured := False\<rparr>, e1)"
      using "1.prems" False a1 by (subst (asm) send_loop.simps) simp
    have l: "link_le s s1" "tx_count e1 = tx_count e"
      using setSlaveListenAddress_le [OF a1] by simp_all
    have rv: "initialized s \<Longrightarrow> i2cSlave s \<Longrightarrow> reverted e (s1\<lparr>connected := False, configured := False\<rparr>)"
      using setSlaveListenAddress_revert [OF a1] by (simp add: reverted_def)
    show ?thesis
      using r l rv setSlaveListenAddress_begins [OF a1] False
      by (auto simp: link_le_def)
  next
    case True
    show ?thesis
    proof (cases "send_attempt cmd len a x n tgt r att mx w")
      case (Return b2 w2)
      then have b2 by (rule send_attempt_Return)
      obtain s2 e2 where w2: "w2 = (s2, e2)" by (cases w2) auto
      have r: "(b, s', e') = (True, s2, e2)"
        using "1.prems" True Return \<open>b2\<close> w2 by (subst (asm) send_loop.simps) simp
      have "link_le s s2 \<and> tx_count e2 = Suc (tx_count e) \<and> slave_begin_result e2 = slave_begin_result e"
        by (rule send_attempt_le [of cmd len a x n tgt r att mx s e _ b2])
           (use Return w2 "1.prems" in auto)
      then show ?thesis using r by auto
    next
      case (Continue w2)
      obtain s2 e2 where w2: "w2 = (s2, e2)" by (cases w2) auto
      have step: "link_le s s2 \<and> tx_count e2 = Suc (tx_count e) \<and> slave_begin_result e2 = slave_begin_result e"
        by (rule send_attempt_le [of cmd len a x n tgt r att mx s e _ True])
           (use Continue w2 "1.prems" in auto)
      have rec: "send_loop cmd len a x n tgt r (Suc att) mx w2 = (b, s', e')"
        using "1.prems" True Continue by (subst (asm) send_loop.simps) simp
      note ih = "1.IH" [OF True Continue rec w2]
      have init: "initialized s2 = initialized s" "i2cSlave s2 = i2cSlave s"
        using step by (simp_all add: link_le_def)
      have rv: "reverted e2 s' = reverted e s'" using step by (simp add: reverted_def)
      show ?thesis
        using ih step True init rv
        by (auto intro: link_le_trans)
    qed
  qed
qed

lemma setSlaveListenAddress_tx:
  "setSlaveListenAddress a (s, e) = (s', e') \<Longrightarrow>
   endTransmission_result e' = endTransmission_result e \<and> tx_count e' = tx_count e"
  by (auto simp: setSlaveListenAddress_def Let_def split: if_splits)

lemma send_attempt_txfail:
  assumes "endTransmission_result e (tx_count e) \<noteq> 0"
  shows "\<exists>s' e'. send_attempt cmd len a x n tgt r att mx (s, e)
                    = (if r then Continue (s', e') else Return True (s', e'))
                  \<and> lastError s' = DGT_ERROR_I2C_COMM
                  \<and> endTransmission_result e' = endTransmission_result e
                  \<and> tx_count e' = Suc (tx_count e)"
proof -
  obtain s1 e1 where a1: "setSlaveListenAddress a (s, e) = (s1, e1)"
    by (cases "setSlaveListenAddress a (s, e)") auto
  note p = setSlaveListenAddress_tx [OF a1]
  show ?thesis using assms p by (simp add: send_attempt_def a1 Let_def)
qed

lemma send_loop_past:
  "mx < att \<Longrightarrow>
   send_loop cmd len a x n tgt r att mx w =
     (case setSlaveListenAddress 0 w of
        (s1, e1) \<Rightarrow> (False, s1\<lparr>connected := False, configured := False\<rparr>, e1))"
  by (subst send_loop.simps) simp

lemma send_loop_step:
  "att \<le> mx \<Longrightarrow>
   send_loop cmd len a x n tgt r att mx w =
     (case send_attempt cmd len a x n tgt r att mx w of
        Return b w' \<Rightarrow> (b, w')
      | Continue w' \<Rightarrow> send_loop cmd len a x n tgt r (Suc att) mx w')"
  by (subst send_loop.simps) simp

lemma sendDGTCommand_single_txfail:
  assumes "initialized s" "i2cMaster s" "0 < len"
    and "endTransmission_result e (tx_count e) \<noteq> 0"
  shows "\<exists>s' e'. sendDGTCommand (Some cmd) len a x n tgt False (s, e) = (True, s', e')
                  \<and> lastError s' = DGT_ERROR_I2C_COMM"
proof -
  obtain s' e' where
    st: "send_attempt cmd len a x n tgt False (Suc 0) (Suc 0) (s, e) = Return True (s', e')"
    and le: "lastError s' = DGT_ERROR_I2C_COMM"
    using send_attempt_txfail [OF assms(4), of cmd len a x n tgt False "Suc 0" "Suc 0" s] by auto
  have "send_loop cmd len a x n tgt False (Suc 0) (Suc 0) (s, e) = (True, s', e')"
    by (simp add: send_loop_step st)
  then show ?thesis using assms le by (simp add: sendDGTCommand_def)
qed

lemma sendDGTCommand_retry_txfail:
  assumes "initialized s" "i2cMaster s" "0 < len"
    and f: "\<forall>i<3. endTransmission_result e (tx_count e + i) \<noteq> 0"
  shows "\<not> fst (sendDGTCommand (Some cmd) len a x n tgt True (s, e))"
proof -
  have f0: "endTransmission_result e (tx_count e) \<noteq> 0" using f [rule_format, of 0] by simp
  obtain s1 e1 where
    st1: "send_attempt cmd len a x n tgt True (Suc 0) 3 (s, e) = Continue (s1, e1)"
    and e1: "endTransmission_result e1 = endTransmission_result e" "tx_count e1 = Suc (tx_count e)"
    using send_attempt_txfail [OF f0, of cmd len a x n tgt True "Suc 0" 3 s] by auto
  have f1: "endTransmission_result e1 (tx_count e1) \<noteq> 0" using f [rule_format, of 1] e1 by simp
  obtain s2 e2 where
    st2: "send_attempt cmd len a x n tgt True (Suc (Suc 0)) 3 (s1, e1) = Continue (s2, e2)"
    and e2: "endTransmission_result e2 = endTransmission_result e1" "tx_count e2 = Suc (tx_count e1)"
    using send_attempt_txfail [OF f1, of cmd len a x n tgt True "Suc (Suc 0)" 3 s1] by auto
  have f2: "endTransmission_result e2 (tx_count e2) \<noteq> 0" using f [rule_format, of 2] e1 e2 by simp
  obtain s3 e3 where
    st3: "send_attempt cmd len a x n tgt True (Suc (Suc (Suc 0))) 3 (s2, e2) = Continue (s3, e3)"
    using send_attempt_txfail [OF f2, of cmd len a x n tgt True "Suc (Suc (Suc 0))" 3 s2] by auto
  have l4: "\<not> fst (send_loop cmd len a x n tgt True (Suc (Suc (Suc (Suc 0)))) 3 (s3, e3))"
    by (simp add: send_loop_past split: prod.splits)
  have l3: "\<not> fst (send_loop cmd len a x n tgt True (Suc (Suc (Suc 0))) 3 (s2, e2))"
    using l4 by (simp add: send_loop_step st3)
  have l2: "\<not> fst (send_loop cmd len a x n tgt True (Suc (Suc 0)) 3 (s1, e1))"
    using l3 by (simp add: send_loop_step st2)
  have l1: "\<not> fst (send_loop cmd len a x n tgt True (Suc 0) 3 (s, e))"
    using l2 by (simp add: send_loop_step st1)
  show ?thesis using assms l1 by (simp add: sendDGTCommand_def)
qed

lemma sendDGTCommand_props:
  assumes r: "sendDGTCommand cmd len a x n tgt r (s, e) = (b, s', e')"
  shows "link_le s s' \<and> slave_begin_result e' = slave_begin_result e"
    and "initialized s \<Longrightarrow> i2cMaster s \<Longrightarrow> i2cSlave s \<Longrightarrow> cmd \<noteq> None \<Longrightarrow> 0 < len \<Longrightarrow> \<not> b \<Longrightarrow>
         \<not> connected s' \<and> \<not> configured s'
         \<and> tx_count e' = tx_count e + (if r then 3 else 1) \<and> reverted e s'"
proof -
  show "link_le s s' \<and> slave_begin_result e' = slave_begin_result e"
  proof (cases "\<not> initialized s \<or> \<not> i2cMaster s \<or> cmd = None \<or> len \<le> 0")
    case True
    then have "\<exists>v. (b, s', e') = (False, s\<lparr>lastError := v\<rparr>, e)"
      using r by (cases cmd) (auto simp: sendDGTCommand_def split: if_splits)
    then show ?thesis by (auto simp: link_le_def)
  next
    case False
    then obtain c where c: "cmd = Some c" by auto
    have "send_loop c len a x n tgt r (Suc 0) (if r then 3 else 1) (s, e) = (b, s', e')"
      using r False c by (simp add: sendDGTCommand_def)
    from send_loop_props [OF this refl] show ?thesis by simp
  qed
next
  assume h: "initialized s" "i2cMaster s" "i2cSlave s" "cmd \<noteq> None" "0 < len" "\<not> b"
  then obtain c where c: "cmd = Some c" by auto
  have "send_loop c len a x n tgt r (Suc 0) (if r then 3 else 1) (s, e) = (b, s', e')"
    using r h c by (simp add: sendDGTCommand_def)
  from send_loop_props [OF this refl] h
  show "\<not> connected s' \<and> \<not> configured s'
         \<and> tx_count e' = tx_count e + (if r then 3 else 1) \<and> reverted e s'"
    by auto
qed

lemma waitForAck_loop_ok:
  "(newAckReceived s \<longrightarrow> receivedAckCmd s \<noteq> x) \<Longrightarrow>
   fst (waitForAck_loop x polls s) = (Some x \<in> set polls)"
proof (induction polls arbitrary: s)
  case Nil
  then show ?case by simp
next
  case (Cons a polls)
  show ?case
  proof (cases a)
    case None
    with Cons.prems Cons.IH [of s] show ?thesis by (auto simp: Let_def)
  next
    case (Some c)
    show ?thesis
    proof (cases "c = x")
      case True
      with Some show ?thesis by (simp add: Let_def)
    next
      case False
      with Some Cons.IH [of "s\<lparr>receivedAckCmd := c, newAckReceived := True\<rparr>"]
      show ?thesis by (simp add: Let_def)
    qed
  qed
qed

lemma setSlaveListenAddress_scripts:
  "setSlaveListenAddress a (s, e) = (s', e') \<Longrightarrow>
   initialized s' = initialized s
   \<and> endTransmission_result e' = endTransmission_result e \<and> ack_arrivals e' = ack_arrivals e
   \<and> tx_count e' = tx_count e \<and> ack_wait_count e' = ack_wait_count e"
  by (auto simp: setSlaveListenAddress_def Let_def split: if_splits)

lemma waitForAck_outcome:
  assumes "initialized s" and "waitForAck x (s, e) = (ok, s', e')"
  shows "ok = (Some x \<in> set (ack_arrivals e (ack_wait_count e)))
         \<and> initialized s'
         \<and> endTransmission_result e' = endTransmission_result e \<and> ack_arrivals e' = ack_arrivals e
         \<and> tx_count e' = tx_count e \<and> ack_wait_count e' = Suc (ack_wait_count e)"
proof -
  let ?s1 = "s\<lparr>newAckReceived := False, receivedAckCmd := 0x00\<rparr>"
  let ?polls = "ack_arrivals e (ack_wait_count e)"
  obtain ok2 s2 where l: "waitForAck_loop x ?polls ?s1 = (ok2, s2)"
    by (cases "waitForAck_loop x ?polls ?s1") auto
  have "fst (waitForAck_loop x ?polls ?s1) = (Some x \<in> set ?polls)"
    by (rule waitForAck_loop_ok) simp
  then have ok2: "ok2 = (Some x \<in> set ?polls)" using l by simp
  have "link_le ?s1 s2" by (rule waitForAck_loop_le [OF l])
  then have i: "initialized s2" using assms(1) by (simp add: link_le_def)
  show ?thesis using assms l ok2 i by (auto simp: waitForAck_def Let_def)
qed

lemma send_attempt_outcome:
  assumes "initialized s"
  shows "(if endTransmission_result e (tx_count e) \<noteq> 0
          then \<exists>s' e'. send_attempt cmd len a x n tgt True att mx (s, e) = Continue (s', e')
                 \<and> initialized s'
                 \<and> endTransmission_result e' = endTransmission_result e
                 \<and> ack_arrivals e' = ack_arrivals e
                 \<and> tx_count e' = Suc (tx_count e) \<and> ack_wait_count e' = ack_wait_count e
          else if n \<noteq> 0 \<and> Some x \<notin> set (ack_arrivals e (ack_wait_count e))
          then \<exists>s' e'. send_attempt cmd len a x n tgt True att mx (s, e) = Continue (s', e')
                 \<and> initialized s'
                 \<and> endTransmission_result e' = endTransmission_result e
                 \<and> ack_arrivals e' = ack_arrivals e
                 \<and> tx_count e' = Suc (tx_count e) \<and> ack_wait_count e' = Suc (ack_wait_count e)
          else \<exists>w'. send_attempt cmd len a x n tgt True att mx (s, e) = Return True w')"
proof -
  obtain s1 e1 where a1: "setSlaveListenAddress a (s, e) = (s1, e1)"
    by (cases "setSlaveListenAddress a (s, e)") auto
  note p1 = setSlaveListenAddress_scripts [OF a1]
  let ?s2 = "s1\<lparr>newAckReceived := False, receivedAckCmd := 0x00\<rparr>"
  let ?e2 = "e1\<lparr>tx_count := Suc (tx_count e1),
                 wire_log := wire_log e1 @ [(tgt, take (nat len) cmd)]\<rparr>"
  obtain ok s3 e3 where w: "waitForAck x (?s2, ?e2) = (ok, s3, e3)"
    by (cases "waitForAck x (?s2, ?e2)") auto
  have i2: "initialized ?s2" using p1 assms by simp
  note p3 = waitForAck_outcome [OF i2 w]
  obtain s4 e4 where a4: "setSlaveListenAddress 0 (s3, e3) = (s4, e4)"
    by (cases "setSlaveListenAddress 0 (s3, e3)") auto
  show ?thesis
    using assms p1 p3 w a4 by (auto simp: send_attempt_def a1 Let_def)
qed

lemma send_loop_exhausted:
  "initialized s \<Longrightarrow> att \<le> Suc mx \<Longrightarrow> k = Suc mx - att \<Longrightarrow>
   fst (send_loop cmd len a x n tgt True att mx (s, e))
     = (\<not> exhausted x n e k (tx_count e) (ack_wait_count e))"
proof (induction k arbitrary: att s e)
  case 0
  then have "mx < att" by simp
  then show ?case by (simp add: send_loop_past split: prod.splits)
next
  case (Suc k)
  then have le: "att \<le> mx" and k: "k = Suc mx - Suc att" and le': "Suc att \<le> Suc mx" by simp_all
  note o = send_attempt_outcome [OF Suc.prems(1), of e cmd len a x n tgt att mx]
  show ?case
  proof (cases "endTransmission_result e (tx_count e) \<noteq> 0")
    case True
    with o obtain s' e' where
      st: "send_attempt cmd len a x n tgt True att mx (s, e) = Continue (s', e')"
      and i: "initialized s'"
      and p: "endTransmission_result e' = endTransmission_result e" "ack_arrivals e' = ack_arrivals e"
        "tx_count e' = Suc (tx_count e)" "ack_wait_count e' = ack_wait_count e"
      by auto
    have sc: "exhausted x n e' k t w = exhausted x n e k t w" for t w
      using p(1,2) by (induction k arbitrary: t w) simp_all
    show ?thesis
      using Suc.IH [OF i le' k, of e'] True p sc
      by (simp add: send_loop_step [OF le] st)
  next
    case False
    note tx = False
    show ?thesis
    proof (cases "n \<noteq> 0 \<and> Some x \<notin> set (ack_arrivals e (ack_wait_count e))")
      case True
      with o tx obtain s' e' where
        st: "send_attempt cmd len a x n tgt True att mx (s, e) = Continue (s', e')"
        and i: "initialized s'"
        and p: "endTransmission_result e' = endTransmission_result e" "ack_arrivals e' = ack_arrivals e"
          "tx_count e' = Suc (tx_count e)" "ack_wait_count e' = Suc (ack_wait_count e)"
        by auto
      have sc: "exhausted x n e' k t w = exhausted x n e k t w" for t w
        using p(1,2) by (induction k arbitrary: t w) simp_all
      show ?thesis
        using Suc.IH [OF i le' k, of e'] True tx p sc
        by (simp add: send_loop_step [OF le] st)
    next
      case False
      with o tx obtain w' where
        st: "send_attempt cmd len a x n tgt True att mx (s, e) = Return True w'"
        by auto
      show ?thesis using False tx by (auto simp add: send_loop_step [OF le] st)
    qed
  qed
qed

lemma sendDGTCommand_exhausted:
  assumes "initialized s" "i2cMaster s" "0 < len"
  shows "fst (sendDGTCommand (Some cmd) len a x n tgt True (s, e))
           = (\<not> exhausted x n e 3 (tx_count e) (ack_wait_count e))"
  using assms send_loop_exhausted [of s "Suc 0" 3 3 cmd len a x n tgt e]
  by (simp add: sendDGTCommand_def)

text \<open>
  Claim C8. Let the link be initialized with both bus objects present, and the command
  buffer non-null with a positive length. (1) With \<open>withRetry\<close> false (a single attempt), if
  the master transmission fails, \<open>sendDGTCommand\<close> returns \<open>true\<close> and the last error is
  \<open>I2C_COMM\<close>. (2) With \<open>withRetry\<close> true, if the three master transmissions fail, the
  function returns \<open>false\<close>. (3) Whenever it returns \<open>false\<close>, three transmissions have been
  made, the connected and configured flags are cleared, and the listen address has been
  reverted by \<open>setSlaveListenAddress(0x00)\<close>: it is 0x00, unless the slave peripheral
  refused that bind, which the code records as address 0xFF with the error \<open>I2C_INIT\<close>.
  (4) With \<open>withRetry\<close> true, if the three attempts all fail, each by a refused transmission
  or by a wait in which the expected ACK does not arrive, the function returns \<open>false\<close>
  with all of the effects of (3). (5) If they do not all fail, it returns \<open>true\<close>. (6) In
  particular it returns \<open>false\<close> when the three transmissions are accepted and, an ACK being
  awaited, none of the three waits sees the expected ACK.
\<close>

theorem sendDGTCommand_failure_paths:
  assumes "initialized s" and "i2cMaster s" and "i2cSlave s" and "0 < len"
  shows
    "(endTransmission_result e (tx_count e) \<noteq> 0 \<longrightarrow>
        (\<exists>s' e'. sendDGTCommand (Some cmd) len a x n tgt False (s, e) = (True, s', e')
                  \<and> lastError s' = DGT_ERROR_I2C_COMM))
     \<and> ((\<forall>i<3. endTransmission_result e (tx_count e + i) \<noteq> 0) \<longrightarrow>
          \<not> fst (sendDGTCommand (Some cmd) len a x n tgt True (s, e)))
     \<and> (\<forall>s' e'. sendDGTCommand (Some cmd) len a x n tgt True (s, e) = (False, s', e') \<longrightarrow>
          \<not> connected s' \<and> \<not> configured s' \<and> tx_count e' = tx_count e + 3
          \<and> (currentListenAddress s' = 0
              \<or> currentListenAddress s' = 0xFF \<and> lastError s' = DGT_ERROR_I2C_INIT)
          \<and> ((\<forall>k. slave_begin_result e k) \<longrightarrow> currentListenAddress s' = 0))
     \<and> (exhausted x n e 3 (tx_count e) (ack_wait_count e) \<longrightarrow>
          (\<exists>s' e'. sendDGTCommand (Some cmd) len a x n tgt True (s, e) = (False, s', e')
                    \<and> \<not> connected s' \<and> \<not> configured s' \<and> tx_count e' = tx_count e + 3
                    \<and> (currentListenAddress s' = 0
                        \<or> currentListenAddress s' = 0xFF \<and> lastError s' = DGT_ERROR_I2C_INIT)
                    \<and> ((\<forall>k. slave_begin_result e k) \<longrightarrow> currentListenAddress s' = 0)))
     \<and> (\<not> exhausted x n e 3 (tx_count e) (ack_wait_count e) \<longrightarrow>
          fst (sendDGTCommand (Some cmd) len a x n tgt True (s, e)))
     \<and> (n \<noteq> 0 \<and> (\<forall>i<3. endTransmission_result e (tx_count e + i) = 0
                         \<and> Some x \<notin> set (ack_arrivals e (ack_wait_count e + i))) \<longrightarrow>
          \<not> fst (sendDGTCommand (Some cmd) len a x n tgt True (s, e)))"
proof -
  let ?r = "sendDGTCommand (Some cmd) len a x n tgt True (s, e)"
  let ?ex = "exhausted x n e 3 (tx_count e) (ack_wait_count e)"
  have iff: "fst ?r = (\<not> ?ex)"
    using assms by (intro sendDGTCommand_exhausted)
  have c1: "endTransmission_result e (tx_count e) \<noteq> 0 \<Longrightarrow>
        (\<exists>s' e'. sendDGTCommand (Some cmd) len a x n tgt False (s, e) = (True, s', e')
                  \<and> lastError s' = DGT_ERROR_I2C_COMM)"
    using assms by (intro sendDGTCommand_single_txfail)
  have c2: "\<forall>i<3. endTransmission_result e (tx_count e + i) \<noteq> 0 \<Longrightarrow> \<not> fst ?r"
    using assms by (intro sendDGTCommand_retry_txfail)
  have c3: "\<not> connected s' \<and> \<not> configured s' \<and> tx_count e' = tx_count e + 3
          \<and> (currentListenAddress s' = 0
              \<or> currentListenAddress s' = 0xFF \<and> lastError s' = DGT_ERROR_I2C_INIT)
          \<and> ((\<forall>k. slave_begin_result e k) \<longrightarrow> currentListenAddress s' = 0)"
    if r: "?r = (False, s', e')" for s' e'
  proof -
    note p = sendDGTCommand_props(2) [OF r assms(1) assms(2) assms(3) _ assms(4)]
    have "\<not> connected s' \<and> \<not> configured s' \<and> tx_count e' = tx_count e + 3 \<and> reverted e s'"
      using p by simp
    then show ?thesis by (simp add: reverted_def)
  qed
  have c4: "\<exists>s' e'. ?r = (False, s', e')
                    \<and> \<not> connected s' \<and> \<not> configured s' \<and> tx_count e' = tx_count e + 3
                    \<and> (currentListenAddress s' = 0
                        \<or> currentListenAddress s' = 0xFF \<and> lastError s' = DGT_ERROR_I2C_INIT)
                    \<and> ((\<forall>k. slave_begin_result e k) \<longrightarrow> currentListenAddress s' = 0)"
    if ex: ?ex
  proof -
    have "\<not> fst ?r" using iff ex by simp
    then have r: "?r = (False, fst (snd ?r), snd (snd ?r))" by (cases ?r) auto
    from c3 [OF r] r show ?thesis by blast
  qed
  have c5: "\<not> ?ex \<Longrightarrow> fst ?r" using iff by simp
  have c6: "\<not> fst ?r"
    if h: "n \<noteq> 0 \<and> (\<forall>i<3. endTransmission_result e (tx_count e + i) = 0
                         \<and> Some x \<notin> set (ack_arrivals e (ack_wait_count e + i)))"
  proof -
    have "endTransmission_result e (tx_count e) = 0" "Some x \<notin> set (ack_arrivals e (ack_wait_count e))"
      using h [THEN conjunct2, rule_format, of 0] by simp_all
    moreover have "endTransmission_result e (Suc (tx_count e)) = 0"
      "Some x \<notin> set (ack_arrivals e (Suc (ack_wait_count e)))"
      using h [THEN conjunct2, rule_format, of 1] by simp_all
    moreover have "endTransmission_result e (Suc (Suc (tx_count e))) = 0"
      "Some x \<notin> set (ack_arrivals e (Suc (Suc (ack_wait_count e))))"
      using h [THEN conjunct2, rule_format, of 2] by simp_all
    ultimately have ?ex using h by (simp add: numeral_3_eq_3)
    then show ?thesis using iff by simp
  qed
  show ?thesis using c1 c2 c3 c4 c5 c6 by blast
qed


text \<open>
  The theorem on a connected and configured link. On a bus that refuses every transmission:
  the fire-and-forget ping returns \<open>true\<close>, and Set Central Control with retry returns
  \<open>false\<close> with the flags cleared and the listen address 0x00. On a bus that accepts every
  transmission and never delivers the expected ACK, Set Central Control again returns
  \<open>false\<close> after three transmissions, with the same effects. On a bus that refuses the first
  transmission and delivers the ACK in the second wait, it returns \<open>true\<close>.
\<close>

theorem sendDGTCommand_failure_paths_witness:
  "initialized (ready_link\<lparr>connected := True, configured := True\<rparr>)
   \<and> i2cMaster (ready_link\<lparr>connected := True, configured := True\<rparr>)
   \<and> i2cSlave (ready_link\<lparr>connected := True, configured := True\<rparr>)
   \<and> (0 :: int) < 4
   \<and> endTransmission_result dead_bus (tx_count dead_bus) \<noteq> 0
   \<and> fst (sendDGTCommand (Some [0x20, 0x05, 0x0d, 0x46]) 4 0x00 0 0 0x28 False
            (ready_link\<lparr>connected := True, configured := True\<rparr>, dead_bus))
   \<and> \<not> fst (sendDGTCommand (Some [0x20, 0x05, 0x0f, 0x48]) 4 0x10 0x0f 1 0x08 True
              (ready_link\<lparr>connected := True, configured := True\<rparr>, dead_bus))
   \<and> \<not> connected (fst (snd (sendDGTCommand (Some [0x20, 0x05, 0x0f, 0x48]) 4 0x10 0x0f 1 0x08 True
              (ready_link\<lparr>connected := True, configured := True\<rparr>, dead_bus))))
   \<and> currentListenAddress (fst (snd (sendDGTCommand (Some [0x20, 0x05, 0x0f, 0x48]) 4 0x10 0x0f 1 0x08
              True (ready_link\<lparr>connected := True, configured := True\<rparr>, dead_bus)))) = 0
   \<and> exhausted 0x0f 1 mute_bus 3 (tx_count mute_bus) (ack_wait_count mute_bus)
   \<and> \<not> fst (sendDGTCommand (Some [0x20, 0x05, 0x0f, 0x48]) 4 0x10 0x0f 1 0x08 True
              (ready_link\<lparr>connected := True, configured := True\<rparr>, mute_bus))
   \<and> \<not> connected (fst (snd (sendDGTCommand (Some [0x20, 0x05, 0x0f, 0x48]) 4 0x10 0x0f 1 0x08 True
              (ready_link\<lparr>connected := True, configured := True\<rparr>, mute_bus))))
   \<and> \<not> configured (fst (snd (sendDGTCommand (Some [0x20, 0x05, 0x0f, 0x48]) 4 0x10 0x0f 1 0x08 True
              (ready_link\<lparr>connected := True, configured := True\<rparr>, mute_bus))))
   \<and> currentListenAddress (fst (snd (sendDGTCommand (Some [0x20, 0x05, 0x0f, 0x48]) 4 0x10 0x0f 1 0x08
              True (ready_link\<lparr>connected := True, configured := True\<rparr>, mute_bus)))) = 0
   \<and> tx_count (snd (snd (sendDGTCommand (Some [0x20, 0x05, 0x0f, 0x48]) 4 0x10 0x0f 1 0x08
              True (ready_link\<lparr>connected := True, configured := True\<rparr>, mute_bus)))) = 3
   \<and> \<not> exhausted 0x0f 1 slow_bus 3 (tx_count slow_bus) (ack_wait_count slow_bus)
   \<and> fst (sendDGTCommand (Some [0x20, 0x05, 0x0f, 0x48]) 4 0x10 0x0f 1 0x08 True
              (ready_link\<lparr>connected := True, configured := True\<rparr>, slow_bus))"
proof -
  let ?s = "ready_link\<lparr>connected := True, configured := True\<rparr>"
  have h1: "initialized ?s" and h2: "i2cMaster ?s" and h3: "i2cSlave ?s"
    by (simp_all add: ready_link_def)
  have h4: "(0 :: int) < 4" by simp
  have h5: "endTransmission_result dead_bus (tx_count dead_bus) \<noteq> 0" by (simp add: dead_bus_def)
  have h6: "\<forall>i<3. endTransmission_result dead_bus (tx_count dead_bus + i) \<noteq> 0"
    by (simp add: dead_bus_def)
  have h7: "\<forall>k. slave_begin_result dead_bus k" by (simp add: dead_bus_def)
  have h8: "exhausted 0x0f 1 mute_bus 3 (tx_count mute_bus) (ack_wait_count mute_bus)"
    by (simp add: mute_bus_def numeral_3_eq_3)
  have h9: "\<forall>k. slave_begin_result mute_bus k" "tx_count mute_bus = 0"
    by (simp_all add: mute_bus_def)
  have h10: "\<not> exhausted 0x0f 1 slow_bus 3 (tx_count slow_bus) (ack_wait_count slow_bus)"
    by (simp add: slow_bus_def numeral_3_eq_3)
  note t1 = sendDGTCommand_failure_paths [OF h1 h2 h3 h4,
      where e = dead_bus and cmd = "[0x20, 0x05, 0x0d, 0x46]" and a = "0x00" and x = 0 and n = 0
        and tgt = "0x28"]
  note t2 = sendDGTCommand_failure_paths [OF h1 h2 h3 h4,
      where e = dead_bus and cmd = "[0x20, 0x05, 0x0f, 0x48]" and a = "0x10" and x = "0x0f" and n = 1
        and tgt = "0x08"]
  note t3 = sendDGTCommand_failure_paths [OF h1 h2 h3 h4,
      where e = mute_bus and cmd = "[0x20, 0x05, 0x0f, 0x48]" and a = "0x10" and x = "0x0f" and n = 1
        and tgt = "0x08"]
  note t4 = sendDGTCommand_failure_paths [OF h1 h2 h3 h4,
      where e = slow_bus and cmd = "[0x20, 0x05, 0x0f, 0x48]" and a = "0x10" and x = "0x0f" and n = 1
        and tgt = "0x08"]
  let ?r = "sendDGTCommand (Some [0x20, 0x05, 0x0f, 0x48]) 4 0x10 0x0f 1 0x08 True (?s, dead_bus)"
  let ?m = "sendDGTCommand (Some [0x20, 0x05, 0x0f, 0x48]) 4 0x10 0x0f 1 0x08 True (?s, mute_bus)"
  have a: "fst (sendDGTCommand (Some [0x20, 0x05, 0x0d, 0x46]) 4 0x00 0 0 0x28 False (?s, dead_bus))"
    using t1 h5 by auto
  have b: "\<not> fst ?r" using t2 h6 by blast
  then have "?r = (False, fst (snd ?r), snd (snd ?r))" by (cases ?r) auto
  then have c: "\<not> connected (fst (snd ?r)) \<and> currentListenAddress (fst (snd ?r)) = 0"
    using t2 h7 by blast
  obtain s' e' where m: "?m = (False, s', e')" and
    m': "\<not> connected s'" "\<not> configured s'" "tx_count e' = tx_count mute_bus + 3"
      "(\<forall>k. slave_begin_result mute_bus k) \<longrightarrow> currentListenAddress s' = 0"
    using t3 h8 by blast
  have d: "\<not> fst ?m" "\<not> connected (fst (snd ?m))" "\<not> configured (fst (snd ?m))"
    "currentListenAddress (fst (snd ?m)) = 0" "tx_count (snd (snd ?m)) = 3"
    using m m' h9 by simp_all
  have f: "fst (sendDGTCommand (Some [0x20, 0x05, 0x0f, 0x48]) 4 0x10 0x0f 1 0x08 True (?s, slow_bus))"
    using t4 h10 by blast
  show ?thesis using h1 h2 h3 h4 h5 a b c h8 d h10 f by blast
qed

section \<open>The configuration sequence\<close>



lemma le_err: "link_le s u \<Longrightarrow> link_le s (u\<lparr>lastError := v\<rparr>)"
  by (simp add: link_le_def)





section \<open>The checks of \<open>processCommand\<close> before dispatch\<close>

subsection \<open>Configured means connected\<close>

lemma generateConnectionStatusEvent_flags:
  "dgtConnectionState (generateConnectionStatusEvent p a b t) = dgtConnectionState t
   \<and> dgtConfigured (generateConnectionStatusEvent p a b t) = dgtConfigured t"
  by (simp add: generateConnectionStatusEvent_def Let_def split: option.splits prod.splits)

lemma generateErrorEvent_flags:
  "dgtConnectionState (generateErrorEvent p c m t) = dgtConnectionState t
   \<and> dgtConfigured (generateErrorEvent p c m t) = dgtConfigured t"
  by (simp add: generateErrorEvent_def Let_def split: option.splits prod.splits)

lemma configureDGT3000_flags:
  "dgtConnectionState (snd (configureDGT3000 lc t)) = dgtConnectionState t
   \<and> dgtConfigured (snd (configureDGT3000 lc t)) = dgtConfigured t"
  by (simp add: configureDGT3000_def split: option.splits prod.splits)

lemma ctor_coupled: "flags_coupled (I2CTaskManager_ctor queueMgr initialStats)"
  by (simp add: flags_coupled_def I2CTaskManager_ctor_def)

lemma initializeDGT3000_coupled:
  assumes "flags_coupled t"
  shows "flags_coupled (snd (initializeDGT3000 p lb lc now t))"
proof (cases "dgt3000 t")
  case None
  then show ?thesis using assms by (simp add: initializeDGT3000_def flags_coupled_def Let_def)
next
  case (Some d)
  obtain ok d' where b: "lb d = (ok, d')" by (cases "lb d") auto
  let ?t3 = "t\<lparr>initializingDGT := True, connectionStartTime := now, dgt3000 := Some d'\<rparr>"
  obtain c t4 where g: "configureDGT3000 lc ?t3 = (c, t4)"
    by (cases "configureDGT3000 lc ?t3") auto
  have f4: "dgtConnectionState t4 = dgtConnectionState t" "dgtConfigured t4 = dgtConfigured t"
    using configureDGT3000_flags [of lc ?t3] g by simp_all
  show ?thesis
    using assms Some b g f4
    by (simp add: initializeDGT3000_def flags_coupled_def Let_def
          generateConnectionStatusEvent_flags)
qed

lemma cleanupDGT3000_coupled:
  "flags_coupled t \<Longrightarrow> flags_coupled (cleanupDGT3000 p le t)"
  by (simp add: cleanupDGT3000_def flags_coupled_def Let_def
        generateConnectionStatusEvent_flags split: option.splits)

lemma handleDGT3000Error_coupled:
  "flags_coupled t \<Longrightarrow> flags_coupled (handleDGT3000Error p error t)"
  by (simp add: handleDGT3000Error_def flags_coupled_def Let_def
        generateConnectionStatusEvent_flags generateErrorEvent_flags)

lemma performRecovery_coupled:
  assumes "flags_coupled t"
  shows "flags_coupled (snd (performRecovery p lc t))"
proof -
  obtain c t1 where g: "configureDGT3000 lc t = (c, t1)"
    by (cases "configureDGT3000 lc t") auto
  have f1: "dgtConnectionState t1 = dgtConnectionState t" "dgtConfigured t1 = dgtConfigured t"
    using configureDGT3000_flags [of lc t] g by simp_all
  show ?thesis
    using assms g f1
    by (simp add: performRecovery_def flags_coupled_def Let_def
          generateConnectionStatusEvent_flags)
qed

lemma task_reachable_coupled: "task_reachable t \<Longrightarrow> flags_coupled t"
proof (induction rule: task_reachable.induct)
  case (constructed queueMgr initialStats)
  show ?case by (rule ctor_coupled)
next
  case (initialize_step t ctorPriority link_begin link_configure now)
  then show ?case by (intro initializeDGT3000_coupled)
next
  case (cleanup_step t ctorPriority link_end)
  then show ?case by (intro cleanupDGT3000_coupled)
next
  case (error_step t ctorPriority error)
  then show ?case by (intro handleDGT3000Error_coupled)
next
  case (recovery_step t ctorPriority link_configure)
  then show ?case by (intro performRecovery_coupled)
next
  case (other_step t t')
  then show ?case by (simp add: flags_coupled_def)
qed

lemma connected_unconfigured_unreachable:
  "dgtConnectionState t = CONNECTED \<Longrightarrow> \<not> dgtConfigured t \<Longrightarrow> \<not> task_reachable t"
  using task_reachable_coupled [of t] by (auto simp: flags_coupled_def)

text \<open>
  The functions of the task embedded above that are not among the four keep a state among
  the reachable ones: \<open>handleButtonRepeat\<close>, the two response functions, and
  \<open>processCommand\<close> when the handler it dispatches to does. A handler reaches the two
  members through \<open>handleDGT3000Error\<close> only.
\<close>

lemma sendCommandError_flags:
  "dgtConnectionState (sendCommandError i c m now t) = dgtConnectionState t
   \<and> dgtConfigured (sendCommandError i c m now t) = dgtConfigured t"
  by (simp add: sendCommandError_def sendCommandResponse_def Let_def
        split: option.splits prod.splits)

lemma handleButtonRepeat_reachable:
  assumes "task_reachable t"
  shows "task_reachable (handleButtonRepeat now t)"
proof (rule other_step [OF assms])
  show "dgtConnectionState (handleButtonRepeat now t) = dgtConnectionState t"
    by (simp add: handleButtonRepeat_def Let_def split: option.splits prod.splits)
  show "dgtConfigured (handleButtonRepeat now t) = dgtConfigured t"
    by (simp add: handleButtonRepeat_def Let_def split: option.splits prod.splits)
qed

lemma processCommand_reachable:
  assumes r: "task_reachable t"
    and ex: "\<And>i c p u. task_reachable u \<Longrightarrow> task_reachable (snd (executeCommand i c p u))"
  shows "task_reachable (processCommand deserializeJson executeCommand now t)"
proof (cases "queueManager t")
  case None
  then show ?thesis using r by (simp add: processCommand_def)
next
  case (Some q)
  show ?thesis
  proof (cases "receiveRawCommand q")
    case (Pair rc q')
    show ?thesis
    proof (cases rc)
      case None
      have "task_reachable (t\<lparr>queueManager := Some q'\<rparr>)"
        by (rule other_step [OF r]) simp_all
      then show ?thesis using Some Pair None by (simp add: processCommand_def)
    next
      case (Some rawCmd)
      let ?t1 = "t\<lparr>queueManager := Some q',
                   stats := (stats t)\<lparr>commandsReceived := commandsReceived (stats t) + 1\<rparr>\<rparr>"
      have r1: "task_reachable ?t1" by (rule other_step [OF r]) simp_all
      have e: "task_reachable (sendCommandError i c m now ?t1)" for i c m
        by (rule other_step [OF r1]) (simp_all add: sendCommandError_flags)
      have d: "task_reachable
                 (case executeCommand i c p ?t1 of
                    (success, t2) \<Rightarrow>
                      if success
                      then t2\<lparr>stats := (stats t2)\<lparr>commandsExecuted :=
                             commandsExecuted (stats t2) + 1\<rparr>\<rparr>
                      else t2\<lparr>stats := (stats t2)\<lparr>commandsFailed :=
                             commandsFailed (stats t2) + 1\<rparr>\<rparr>)"
        for i c p
      proof (cases "executeCommand i c p ?t1")
        case (Pair success t2)
        have "task_reachable t2" using ex [OF r1, of i c p] Pair by simp
        then have "task_reachable (t2\<lparr>stats := st\<rparr>)" for st
          by (rule other_step) simp_all
        then show ?thesis using Pair by simp
      qed
      show ?thesis
        using \<open>queueManager t = Some q\<close> Pair Some r1 e d
        by (auto simp: processCommand_def Let_def split: option.splits)
    qed
  qed
qed

subsection \<open>The checks\<close>

lemma processCommand_cases:
  assumes "queueManager t = Some q" and "qm_initialized q"
    and "rawCommandQueue q = rawCmd # rest"
    and "deserializeJson (jsonData rawCmd) = (error, doc)"
  shows
    "(as_cstr (map_of doc ''id'') = None \<longrightarrow>
        processCommand deserializeJson executeCommand now t = command_taken q rest t)
     \<and> (\<forall>i. error = None \<and> as_cstr (map_of doc ''id'') = Some i
              \<and> as_cstr (map_of doc ''command'') = None \<longrightarrow>
            processCommand deserializeJson executeCommand now t
              = error_offered q rest
                  (ErrorResponse (take 31 i) now JSON_INVALID_COMMAND
                     ''Missing 'id' or 'command' field'') t)
     \<and> (\<forall>i c. error = None \<and> as_cstr (map_of doc ''id'') = Some i
              \<and> as_cstr (map_of doc ''command'') = Some c \<and> c \<noteq> ''getStatus''
              \<and> \<not> isDGT3000Connected t \<longrightarrow>
            processCommand deserializeJson executeCommand now t
              = error_offered q rest
                  (ErrorResponse (take 31 i) now DGT_NOT_CONFIGURED ''DGT3000 not connected'') t)
     \<and> (\<forall>i c. error = None \<and> as_cstr (map_of doc ''id'') = Some i
              \<and> as_cstr (map_of doc ''command'') = Some c
              \<and> (c = ''getStatus'' \<or> isDGT3000Connected t) \<longrightarrow>
            processCommand deserializeJson executeCommand now t
              = (let r = executeCommand i c (map_of doc ''params'') (command_taken q rest t);
                     t2 = snd r
                 in if fst r
                    then t2\<lparr>stats := (stats t2)\<lparr>commandsExecuted :=
                               commandsExecuted (stats t2) + 1\<rparr>\<rparr>
                    else t2\<lparr>stats := (stats t2)\<lparr>commandsFailed :=
                               commandsFailed (stats t2) + 1\<rparr>\<rparr>))"
  using assms
  by (auto simp: processCommand_def receiveRawCommand_def sendCommandError_def
        sendCommandResponse_def sendResponse_def as_cstr_def isDGT3000Connected_def
        command_taken_def error_offered_def Let_def
      split: option.splits prod.splits)

text \<open>
  Claim C5. A command is at the front of the raw command queue and the parser has filled the
  document \<open>doc\<close> from its payload. The command is taken from the queue and counted, and
  then:
  \<^item> if \<open>doc["id"]\<close> is not a string, nothing else happens, whatever the parser reported:
    no response is offered to the response queue and nothing is dispatched;
  \<^item> if the payload parsed, has an id and \<open>doc["command"]\<close> is not a string, an error
    response with that id (cut to 31 characters), the code \<open>JSON_INVALID_COMMAND\<close> and the
    message "Missing 'id' or 'command' field" is offered to the response queue, and nothing
    is dispatched;
  \<^item> if the payload parsed, has an id and a command other than \<open>getStatus\<close>, and the
    clock is not configured (\<open>isDGT3000Configured()\<close> is false) in a state the task can
    be in, an error response with the code \<open>DGT_NOT_CONFIGURED\<close> and the message
    "DGT3000 not connected" is offered, and the result does not depend on
    \<open>executeCommand\<close>: the command is not dispatched;
  \<^item> if the payload parsed and has an id and a command, and the clock is configured in a
    state the task can be in, the command is dispatched to \<open>executeCommand\<close> and counted
    as executed or failed.

  What \<open>processCommand\<close> reads is \<open>isDGT3000Connected()\<close>, and the last two cases hold in
  every state whatever, reachable or not, with \<open>isDGT3000Connected()\<close> in the place of
  \<open>isDGT3000Configured()\<close>; \<open>getStatus\<close> is dispatched in every state. In the states the
  task can be in the two agree (\<open>task_reachable_coupled\<close>). The response queue takes a
  response when it holds fewer than ten.
\<close>

theorem processCommand_gates:
  assumes "queueManager t = Some q" and "qm_initialized q"
    and "rawCommandQueue q = rawCmd # rest"
    and "deserializeJson (jsonData rawCmd) = (error, doc)"
  shows
    "(as_cstr (map_of doc ''id'') = None \<longrightarrow>
        processCommand deserializeJson executeCommand now t = command_taken q rest t)
     \<and> (\<forall>i. error = None \<and> as_cstr (map_of doc ''id'') = Some i
              \<and> as_cstr (map_of doc ''command'') = None \<longrightarrow>
            processCommand deserializeJson executeCommand now t
              = error_offered q rest
                  (ErrorResponse (take 31 i) now JSON_INVALID_COMMAND
                     ''Missing 'id' or 'command' field'') t)
     \<and> (\<forall>i c. task_reachable t \<and> error = None \<and> as_cstr (map_of doc ''id'') = Some i
              \<and> as_cstr (map_of doc ''command'') = Some c \<and> c \<noteq> ''getStatus''
              \<and> \<not> isDGT3000Configured t \<longrightarrow>
            processCommand deserializeJson executeCommand now t
              = error_offered q rest
                  (ErrorResponse (take 31 i) now DGT_NOT_CONFIGURED ''DGT3000 not connected'') t)
     \<and> (\<forall>i c. task_reachable t \<and> error = None \<and> as_cstr (map_of doc ''id'') = Some i
              \<and> as_cstr (map_of doc ''command'') = Some c \<and> isDGT3000Configured t \<longrightarrow>
            processCommand deserializeJson executeCommand now t
              = (let r = executeCommand i c (map_of doc ''params'') (command_taken q rest t);
                     t2 = snd r
                 in if fst r
                    then t2\<lparr>stats := (stats t2)\<lparr>commandsExecuted :=
                               commandsExecuted (stats t2) + 1\<rparr>\<rparr>
                    else t2\<lparr>stats := (stats t2)\<lparr>commandsFailed :=
                               commandsFailed (stats t2) + 1\<rparr>\<rparr>))
     \<and> (\<forall>i c. error = None \<and> as_cstr (map_of doc ''id'') = Some i
              \<and> as_cstr (map_of doc ''command'') = Some c \<and> c \<noteq> ''getStatus''
              \<and> \<not> isDGT3000Connected t \<longrightarrow>
            processCommand deserializeJson executeCommand now t
              = error_offered q rest
                  (ErrorResponse (take 31 i) now DGT_NOT_CONFIGURED ''DGT3000 not connected'') t)
     \<and> (\<forall>i c. error = None \<and> as_cstr (map_of doc ''id'') = Some i
              \<and> as_cstr (map_of doc ''command'') = Some c
              \<and> (c = ''getStatus'' \<or> isDGT3000Connected t) \<longrightarrow>
            processCommand deserializeJson executeCommand now t
              = (let r = executeCommand i c (map_of doc ''params'') (command_taken q rest t);
                     t2 = snd r
                 in if fst r
                    then t2\<lparr>stats := (stats t2)\<lparr>commandsExecuted :=
                               commandsExecuted (stats t2) + 1\<rparr>\<rparr>
                    else t2\<lparr>stats := (stats t2)\<lparr>commandsFailed :=
                               commandsFailed (stats t2) + 1\<rparr>\<rparr>))"
proof -
  note c = processCommand_cases [where deserializeJson = deserializeJson and error = error
      and doc = doc and executeCommand = executeCommand and now = now,
      OF assms(1) assms(2) assms(3) assms(4)]
  have eq: "isDGT3000Configured t = isDGT3000Connected t" if "task_reachable t"
    using task_reachable_coupled [OF that]
    by (simp add: flags_coupled_def isDGT3000Configured_def isDGT3000Connected_def)
  show ?thesis
    apply (intro conjI)
         apply (rule c [THEN conjunct1])
        apply (rule c [THEN conjunct2, THEN conjunct1])
       apply (use c [THEN conjunct2, THEN conjunct2, THEN conjunct1] eq in blast)
      apply (use c [THEN conjunct2, THEN conjunct2, THEN conjunct2] eq in blast)
     apply (rule c [THEN conjunct2, THEN conjunct2, THEN conjunct1])
    apply (rule c [THEN conjunct2, THEN conjunct2, THEN conjunct2])
    done
qed

text \<open>
  The theorem at a task that was never connected and holds one command, for three
  documents: one without id, one with an id only, and one with an id and the command
  \<open>run\<close>. Then at a connected task for the last document, where the command reaches
  \<open>executeCommand\<close>; and at the task that \<open>handleDGT3000Error\<close> makes of the connected
  one when a send ended without ACK, where the command is refused again.
\<close>

theorem processCommand_gates_witness:
  "responses (processCommand (\<lambda>s. (None, [(''command'', JString ''run'')]))
                (\<lambda>i c p t. (True, t)) 7
                (task_with [\<lparr>rc_timestamp = 5, rc_length = 17, jsonData = ''payload''\<rparr>]
                   0 DISCONNECTED (False, 0, 0, 0))) = []
   \<and> responses (processCommand (\<lambda>s. (None, [(''id'', JString ''a1'')]))
                (\<lambda>i c p t. (True, t)) 7
                (task_with [\<lparr>rc_timestamp = 5, rc_length = 17, jsonData = ''payload''\<rparr>]
                   0 DISCONNECTED (False, 0, 0, 0)))
       = [ErrorResponse ''a1'' 7 JSON_INVALID_COMMAND ''Missing 'id' or 'command' field'']
   \<and> task_reachable (task_with [\<lparr>rc_timestamp = 5, rc_length = 17, jsonData = ''payload''\<rparr>]
                   0 DISCONNECTED (False, 0, 0, 0))
   \<and> \<not> isDGT3000Configured
          (task_with [\<lparr>rc_timestamp = 5, rc_length = 17, jsonData = ''payload''\<rparr>]
             0 DISCONNECTED (False, 0, 0, 0))
   \<and> responses (processCommand
                (\<lambda>s. (None, [(''id'', JString ''a1''), (''command'', JString ''run'')]))
                (\<lambda>i c p t. (True, t)) 7
                (task_with [\<lparr>rc_timestamp = 5, rc_length = 17, jsonData = ''payload''\<rparr>]
                   0 DISCONNECTED (False, 0, 0, 0)))
       = [ErrorResponse ''a1'' 7 DGT_NOT_CONFIGURED ''DGT3000 not connected'']
   \<and> task_reachable (task_with [\<lparr>rc_timestamp = 5, rc_length = 17, jsonData = ''payload''\<rparr>]
                   0 CONNECTED (False, 0, 0, 0))
   \<and> isDGT3000Configured
          (task_with [\<lparr>rc_timestamp = 5, rc_length = 17, jsonData = ''payload''\<rparr>]
             0 CONNECTED (False, 0, 0, 0))
   \<and> commandsExecuted (stats (processCommand
                (\<lambda>s. (None, [(''id'', JString ''a1''), (''command'', JString ''run'')]))
                (\<lambda>i c p t. (True, t)) 7
                (task_with [\<lparr>rc_timestamp = 5, rc_length = 17, jsonData = ''payload''\<rparr>]
                   0 CONNECTED (False, 0, 0, 0)))) = 1
   \<and> \<not> isDGT3000Configured
          (handleDGT3000Error 1 DGT_ERROR_NO_ACK
             (task_with [\<lparr>rc_timestamp = 5, rc_length = 17, jsonData = ''payload''\<rparr>]
                0 CONNECTED (False, 0, 0, 0)))
   \<and> responses (processCommand
                (\<lambda>s. (None, [(''id'', JString ''a1''), (''command'', JString ''run'')]))
                (\<lambda>i c p t. (True, t)) 7
                (handleDGT3000Error 1 DGT_ERROR_NO_ACK
                   (task_with [\<lparr>rc_timestamp = 5, rc_length = 17, jsonData = ''payload''\<rparr>]
                      0 CONNECTED (False, 0, 0, 0))))
       = [ErrorResponse ''a1'' 7 DGT_NOT_CONFIGURED ''DGT3000 not connected'']"
proof -
  let ?c = "\<lparr>rc_timestamp = 5, rc_length = 17, jsonData = ''payload''\<rparr>"
  let ?e = "(\<lambda>i c p t. (True, t)) :: string \<Rightarrow> string \<Rightarrow> json_value option \<Rightarrow> I2CTaskManager \<Rightarrow> bool \<times> I2CTaskManager"
  let ?t = "task_with [?c] 0 DISCONNECTED (False, 0, 0, 0)"
  let ?u = "task_with [?c] 0 CONNECTED (False, 0, 0, 0)"
  let ?v = "handleDGT3000Error 1 DGT_ERROR_NO_ACK ?u"
  let ?run = "[(''id'', JString ''a1''), (''command'', JString ''run'')]"
  have a: "queueManager ?t = Some (queue_holding [?c])"
    and a': "queueManager ?u = Some (queue_holding [?c])"
    and b: "qm_initialized (queue_holding [?c])"
    and c: "rawCommandQueue (queue_holding [?c]) = ?c # []"
    by (simp_all add: task_with_def queue_holding_def)
  have rt: "task_reachable ?t"
    by (rule other_step [OF constructed [of None "\<lparr>commandsReceived = 0, commandsExecuted = 0,
          commandsFailed = 0, eventsGenerated = 0\<rparr>"]])
       (simp_all add: task_with_def I2CTaskManager_ctor_def)
  have ru: "task_reachable ?u"
    by (rule other_step [OF initialize_step [OF rt, of 1 "\<lambda>d. (True, d)" "\<lambda>d. (True, d)" 0]])
       (simp_all add: task_with_def initializeDGT3000_def configureDGT3000_def Let_def
          generateConnectionStatusEvent_flags)
  have rv: "task_reachable ?v" by (rule error_step [OF ru])
  have n: "\<not> isDGT3000Configured ?t" "isDGT3000Configured ?u" "\<not> isDGT3000Configured ?v"
    by (simp_all add: isDGT3000Configured_def task_with_def handleDGT3000Error_def Let_def
          generateConnectionStatusEvent_flags generateErrorEvent_flags)
  obtain qv where v: "queueManager ?v = Some qv" "qm_initialized qv"
    "rawCommandQueue qv = ?c # []" "responseQueue qv = []"
    by (simp add: handleDGT3000Error_def generateErrorEvent_def generateConnectionStatusEvent_def
          sendEvent_def sendPriorityEvent_def updateQueueStats_def updateStatistics_def
          task_with_def queue_holding_def Let_def)
  note g1 = processCommand_gates [OF a b c, of "\<lambda>s. (None, [(''command'', JString ''run'')])"
      None "[(''command'', JString ''run'')]" ?e 7, simplified]
  note g2 = processCommand_gates [OF a b c, of "\<lambda>s. (None, [(''id'', JString ''a1'')])"
      None "[(''id'', JString ''a1'')]" ?e 7, simplified]
  note g3 = processCommand_gates [OF a b c, of "\<lambda>s. (None, ?run)" None ?run ?e 7, simplified]
  note g4 = processCommand_gates [OF a' b c, of "\<lambda>s. (None, ?run)" None ?run ?e 7, simplified]
  note g5 = processCommand_gates [OF v(1) v(2) v(3), of "\<lambda>s. (None, ?run)" None ?run ?e 7,
      simplified]
  have s: "as_cstr (Some (JString x)) = Some x" "as_cstr None = None" for x
    by (simp_all add: as_cstr_def)
  have r1: "responses (command_taken (queue_holding [?c]) [] ?t) = []"
    by (simp add: responses_def command_taken_def queue_holding_def)
  have r2: "responses (error_offered (queue_holding [?c]) [] r ?t) = [r]" for r
    by (simp add: responses_def error_offered_def queue_holding_def)
  have r3: "responses (error_offered qv [] r ?v) = [r]" for r
    using v(4) by (simp add: responses_def error_offered_def)
  have x: "commandsExecuted (stats (command_taken (queue_holding [?c]) [] ?u)) = 0"
    by (simp add: command_taken_def task_with_def)
  show ?thesis
    using g1 g2 g3 g4 g5 n rt ru rv by (simp add: s r1 r2 r3 x Let_def)
qed

section \<open>The repeat monitor of \<open>handleButtonRepeat\<close>\<close>

text \<open>
  Claim C9. One poll of \<open>handleButtonRepeat\<close> at time \<open>now\<close>, with both pointers set
  and \<open>m\<close> the raw button state restricted to the main five buttons (\<open>AND 0x1F\<close>):
  \<^item> if \<open>m\<close> is zero, or the monitor is active on another mask, the monitor is reset
    (inactive, repeat count 0) and no event is issued;
  \<^item> if \<open>m\<close> is not zero and the monitor is inactive, the hold starts: the monitor becomes
    active on \<open>m\<close> at time \<open>now\<close> with repeat count 0, and no event is issued;
  \<^item> if the monitor is active on \<open>m\<close> and the time since the start of the hold or the last
    repeat (the difference of the two \<open>uint32_t\<close> clock values) is at most the threshold,
    800 ms while the repeat count is 0 and 400 ms afterwards, nothing changes;
  \<^item> if it is more than the threshold, the repeat count goes up by one, the time of the last
    repeat becomes \<open>now\<close>, and a \<open>BUTTON_EVENT\<close> of priority 0 with \<open>isRepeat\<close> true and
    the new repeat count goes to the front of the event queue, which takes it when it holds
    fewer than twenty events.

  So the repeats of one hold carry the counts 1, 2, 3, ..., the first more than 800 ms after
  the hold was seen and each next one more than 400 ms after the one before.
\<close>

theorem handleButtonRepeat_step:
  assumes "queueManager t = Some q" and "dgt3000 t = Some d"
    and "m = fst (getButtonState d) AND 0x1F"
    and "t' = handleButtonRepeat now t"
  shows
    "(m = 0 \<or> (bm_buttonRepeatActive t \<and> bm_lastButtonState t \<noteq> m) \<longrightarrow>
        \<not> bm_buttonRepeatActive t' \<and> bm_buttonRepeatCount t' = 0
        \<and> queued_events t' = queued_events t)
     \<and> (m \<noteq> 0 \<and> \<not> bm_buttonRepeatActive t \<longrightarrow>
        monitor t' = (True, m, now, 0) \<and> queued_events t' = queued_events t)
     \<and> (m \<noteq> 0 \<and> bm_buttonRepeatActive t \<and> bm_lastButtonState t = m
        \<and> \<not> now - bm_lastButtonTime t > (if bm_buttonRepeatCount t = 0 then 800 else 400) \<longrightarrow>
        monitor t' = monitor t \<and> queued_events t' = queued_events t)
     \<and> (m \<noteq> 0 \<and> bm_buttonRepeatActive t \<and> bm_lastButtonState t = m
        \<and> now - bm_lastButtonTime t > (if bm_buttonRepeatCount t = 0 then 800 else 400) \<longrightarrow>
        monitor t' = (True, m, now, bm_buttonRepeatCount t + 1)
        \<and> queued_events t' =
            (if qm_initialized q \<and> length (eventQueue q) < QUEUE_EVENT_SIZE
             then repeat_event m (bm_buttonRepeatCount t + 1) # eventQueue q
             else eventQueue q))"
proof -
  obtain c d' where g: "getButtonState d = (c, d')" by (cases "getButtonState d")
  have m: "m = c AND 0x1F" using assms(3) g by simp
  have q: "queued_events t = eventQueue q" using assms(1) by (simp add: queued_events_def)
  have ev: "eventQueue (updateQueueStats a b c' x) = eventQueue x" for a b c' x
    by (simp add: updateQueueStats_def updateStatistics_def Let_def)
  show ?thesis
    unfolding assms(4) q
    using assms(1,2) g m
    by (auto simp: handleButtonRepeat_def sendPriorityEvent_def ev monitor_def
          queued_events_def repeat_event_def Let_def split: prod.splits)
qed

text \<open>
  The theorem along one hold of the play/pause button (\<open>0x04\<close>): the hold is seen at 100 ms;
  a poll at 900 ms, 800 ms later, issues nothing; a poll at 901 ms issues the first repeat;
  after it a poll at 1301 ms issues nothing and one at 1302 ms issues the second repeat; and
  once the link reports the plus button (\<open>0x08\<close>) the monitor is reset.
\<close>

theorem handleButtonRepeat_step_witness:
  "monitor (handleButtonRepeat 100 (task_with [] 0x04 CONNECTED (False, 0, 0, 0)))
     = (True, 0x04, 100, 0)
   \<and> queued_events (handleButtonRepeat 100 (task_with [] 0x04 CONNECTED (False, 0, 0, 0))) = []
   \<and> monitor (handleButtonRepeat 900 (task_with [] 0x04 CONNECTED (True, 0x04, 100, 0)))
     = (True, 0x04, 100, 0)
   \<and> queued_events (handleButtonRepeat 900 (task_with [] 0x04 CONNECTED (True, 0x04, 100, 0))) = []
   \<and> monitor (handleButtonRepeat 901 (task_with [] 0x04 CONNECTED (True, 0x04, 100, 0)))
     = (True, 0x04, 901, 1)
   \<and> queued_events (handleButtonRepeat 901 (task_with [] 0x04 CONNECTED (True, 0x04, 100, 0)))
     = [repeat_event 0x04 1]
   \<and> queued_events (handleButtonRepeat 1301 (task_with [] 0x04 CONNECTED (True, 0x04, 901, 1))) = []
   \<and> monitor (handleButtonRepeat 1302 (task_with [] 0x04 CONNECTED (True, 0x04, 901, 1)))
     = (True, 0x04, 1302, 2)
   \<and> queued_events (handleButtonRepeat 1302 (task_with [] 0x04 CONNECTED (True, 0x04, 901, 1)))
     = [repeat_event 0x04 2]
   \<and> bm_buttonRepeatCount (handleButtonRepeat 1500 (task_with [] 0x08 CONNECTED (True, 0x04, 1302, 2)))
     = 0
   \<and> queued_events (handleButtonRepeat 1500 (task_with [] 0x08 CONNECTED (True, 0x04, 1302, 2))) = []"
proof -
  have a: "queueManager (task_with [] b c mon) = Some (queue_holding [])"
    and d: "dgt3000 (task_with [] b c mon) = Some (link_reporting b)"
    and f: "bm_buttonRepeatActive (task_with [] b c mon) = fst mon"
           "bm_lastButtonState (task_with [] b c mon) = fst (snd mon)"
           "bm_lastButtonTime (task_with [] b c mon) = fst (snd (snd mon))"
           "bm_buttonRepeatCount (task_with [] b c mon) = snd (snd (snd mon))"
    and e: "queued_events (task_with [] b c mon) = []"
    for b c mon
    by (simp_all add: task_with_def queued_events_def queue_holding_def)
  have g: "fst (getButtonState (link_reporting b)) = b" for b
    by (simp add: getButtonState_def link_reporting_def)
  have k: "qm_initialized (queue_holding [])" "eventQueue (queue_holding []) = []"
    by (simp_all add: queue_holding_def)
  have m4: "(0x04 :: uint8) AND 0x1F = 0x04" and m8: "(0x08 :: uint8) AND 0x1F = 0x08"
    by simp_all
  note s1 = handleButtonRepeat_step [where t = "task_with [] 0x04 CONNECTED (False, 0, 0, 0)"
      and q = "queue_holding []" and d = "link_reporting 0x04" and m = "0x04" and now = 100,
      OF a d _ refl, unfolded g f e k m4]
  note s2 = handleButtonRepeat_step [where t = "task_with [] 0x04 CONNECTED (True, 0x04, 100, 0)"
      and q = "queue_holding []" and d = "link_reporting 0x04" and m = "0x04" and now = 900,
      OF a d _ refl, unfolded g f e k m4]
  note s3 = handleButtonRepeat_step [where t = "task_with [] 0x04 CONNECTED (True, 0x04, 100, 0)"
      and q = "queue_holding []" and d = "link_reporting 0x04" and m = "0x04" and now = 901,
      OF a d _ refl, unfolded g f e k m4]
  note s4 = handleButtonRepeat_step [where t = "task_with [] 0x04 CONNECTED (True, 0x04, 901, 1)"
      and q = "queue_holding []" and d = "link_reporting 0x04" and m = "0x04" and now = 1301,
      OF a d _ refl, unfolded g f e k m4]
  note s5 = handleButtonRepeat_step [where t = "task_with [] 0x04 CONNECTED (True, 0x04, 901, 1)"
      and q = "queue_holding []" and d = "link_reporting 0x04" and m = "0x04" and now = 1302,
      OF a d _ refl, unfolded g f e k m4]
  note s6 = handleButtonRepeat_step [where t = "task_with [] 0x08 CONNECTED (True, 0x04, 1302, 2)"
      and q = "queue_holding []" and d = "link_reporting 0x08" and m = "0x08" and now = 1500,
      OF a d _ refl, unfolded g f e k m8]
  show ?thesis
    using s1 s2 s3 s4 s5 s6 by (simp add: monitor_def f k)
qed

end
